theory Spec2Isabelle
  imports Main
begin

section \<open>Data model\<close>

text \<open>
  The development follows the second, complete program text of \<^verbatim>\<open>index.js\<close>
  (the one with \<^verbatim>\<open>getYoutubeIdentifier\<close> and \<^verbatim>\<open>resolveToChannelId\<close>).

  A string is the list of its code units in UTF-8. The patterns and separators of the
  source are ASCII, and for well-formed text one string contains another as a run of
  UTF-16 code units exactly when it does as a run of UTF-8 bytes, so nothing that the
  program tests depends on the encoding.

  Times are milliseconds since the epoch. The source stores \<^verbatim>\<open>lastNotified\<close> and
  \<^verbatim>\<open>addedAt\<close> as ISO strings written by \<^verbatim>\<open>toISOString\<close> and reads them back with
  \<^verbatim>\<open>new Date\<close>, which is the identity on millisecond timestamps.
\<close>

type_synonym timestamp = int

text \<open>
  One element of the array \<^verbatim>\<open>youtubeChannels\<close>. The field \<^verbatim>\<open>notificationChannelId\<close> may be
  absent, \<^verbatim>\<open>lastNotified\<close> is absent until the first notification. The source reads
  \<^verbatim>\<open>isLive\<close> only for its truth value (\<^verbatim>\<open>channel.isLive || false\<close>), so it is a boolean.
\<close>

record channel =
  channelId :: string
  channelName :: string
  notificationChannelId :: "string option"
  addedBy :: string
  addedAt :: timestamp
  isLive :: bool
  lastNotified :: "timestamp option"

text \<open>JavaScript truth value of a string that may be undefined: the empty string is falsy.\<close>

definition truthy :: "string option \<Rightarrow> bool" where
  "truthy v = (case v of None \<Rightarrow> False | Some s \<Rightarrow> s \<noteq> [])"

text \<open>The first search result of a live query, as far as the program reads it.\<close>

record liveStream =
  videoId :: string
  title :: string
  thumbnailUrl :: string
  channelTitle :: string

text \<open>The object returned by \<^verbatim>\<open>checkYouTubeLiveStatus\<close>: \<^verbatim>\<open>{isLive: false}\<close> or
  \<^verbatim>\<open>{isLive: true, videoId, title, thumbnailUrl, channelTitle}\<close>.\<close>

datatype status = NotLive | Live liveStream

text \<open>
  What a \<^verbatim>\<open>fetch\<close> of the YouTube API can do: reject (\<open>FetchError\<close>), or resolve to a
  response with its \<^verbatim>\<open>ok\<close> flag and a body. Reading the body with \<^verbatim>\<open>json()\<close> can throw
  (\<open>BadJson\<close>); otherwise the field \<^verbatim>\<open>items\<close> is absent (\<open>None\<close>) or an array.
\<close>

datatype 'a body = BadJson | Json "'a list option"

datatype 'a response = FetchError | Response bool "'a body"

text \<open>The calls the program issues to the outside, in the order it issues them.\<close>

datatype call =
    GetLiveSearch string
  | GetChannelForHandle string
  | GetChannelSearch string
  | GetChannelDetails string
  | ChannelsFetch string
  | Send string liveStream
  | SaveChannels

section \<open>Live status prober\<close>

text \<open>
  \<^verbatim>\<open>checkYouTubeLiveStatus(channelId)\<close>, lines 471 to 506. \<open>k\<close> is
  \<^verbatim>\<open>process.env.YOUTUBE_API_KEY\<close>, \<open>r\<close> is what the search request does if it is issued.
  The result \<open>None\<close> is the source's \<^verbatim>\<open>null\<close>; every exception is caught inside.
\<close>

definition checkYouTubeLiveStatus ::
  "string option \<Rightarrow> liveStream response \<Rightarrow> string \<Rightarrow> status option \<times> call list" where
  "checkYouTubeLiveStatus k r cid =
     (if \<not> truthy k then (None, [])
      else
        (case r of
           FetchError \<Rightarrow> None
         | Response ok b \<Rightarrow>
             if \<not> ok then None
             else
               (case b of
                  BadJson \<Rightarrow> None
                | Json its \<Rightarrow>
                    (case its of
                       Some (liveStream # _) \<Rightarrow> Some (Live liveStream)
                     | _ \<Rightarrow> Some NotLive)),
         [GetLiveSearch cid]))"

section \<open>Transition engine\<close>

text \<open>What \<^verbatim>\<open>client.channels.fetch\<close> does: reject, resolve to null, or resolve to a channel.\<close>

datatype fetched = FetchRejects | NoChannel | TextChannel

text \<open>
  What the outside answers during one iteration of the loop over \<^verbatim>\<open>youtubeChannels\<close>:
  the clock read by the cooldown test, the answer to the live search, the answer of
  \<^verbatim>\<open>client.channels.fetch\<close>, whether the \<^verbatim>\<open>EmbedBuilder\<close> calls of lines 535 to 544 accept
  the status (the builder of discord.js throws on a value it refuses), whether \<^verbatim>\<open>send\<close>
  resolves, and the clock read when \<^verbatim>\<open>lastNotified\<close> is written. An answer is consumed
  only if the call is issued.
\<close>

record obs =
  clockCheck :: timestamp
  liveSearch :: "liveStream response"
  channelsFetch :: fetched
  embedOk :: bool
  sendOk :: bool
  clockNotify :: timestamp

text \<open>
  Lines 532 to 553: the delivery of a notification to target \<open>tgt\<close>. The first component
  of the result is False when an awaited call rejects or the embed builder throws:
  nothing in the job function catches the exception, so the loop ends there. The embed
  is built after the destination is fetched and before \<^verbatim>\<open>send\<close> is called.
  \<^verbatim>\<open>saveChannels\<close> catches its own errors. The message sent is determined by the status,
  so the call records the status.
\<close>

definition notify :: "obs \<Rightarrow> string \<Rightarrow> liveStream \<Rightarrow> channel \<Rightarrow> bool \<times> channel \<times> call list" where
  "notify ob tgt s c =
     (case channelsFetch ob of
        FetchRejects \<Rightarrow> (False, c, [ChannelsFetch tgt])
      | NoChannel \<Rightarrow> (True, c, [ChannelsFetch tgt])
      | TextChannel \<Rightarrow>
          if \<not> embedOk ob then (False, c, [ChannelsFetch tgt])
          else if sendOk ob
          then (True, c\<lparr>isLive := True, lastNotified := Some (clockNotify ob)\<rparr>,
                [ChannelsFetch tgt, Send tgt s, SaveChannels])
          else (False, c, [ChannelsFetch tgt, Send tgt s]))"

text \<open>The test of line 516:
  \<^verbatim>\<open>channel.lastNotified && (new Date() - new Date(channel.lastNotified)) < 60 * 60 * 1000\<close>.\<close>

definition recentlyNotified :: "obs \<Rightarrow> channel \<Rightarrow> bool" where
  "recentlyNotified ob c =
     (case lastNotified c of
        None \<Rightarrow> False
      | Some t \<Rightarrow> clockCheck ob - t < 60 * 60 * 1000)"

text \<open>
  The body of the loop, lines 515 to 559, for one channel. The source's test
  \<^verbatim>\<open>status.isLive && channel.notificationChannelId\<close> and its \<^verbatim>\<open>else if (!status.isLive && channel.isLive)\<close>
  are written as a case distinction on the status: for a live status the second test
  is false whatever the target is.
\<close>

definition checkChannel :: "string option \<Rightarrow> obs \<Rightarrow> channel \<Rightarrow> bool \<times> channel \<times> call list" where
  "checkChannel k ob c =
     (if recentlyNotified ob c then (True, c, [])
      else
        (case checkYouTubeLiveStatus k (liveSearch ob) (channelId c) of
           (None, calls) \<Rightarrow> (True, c, calls)
         | (Some (Live s), calls) \<Rightarrow>
             (case notificationChannelId c of
                None \<Rightarrow> (True, c, calls)
              | Some tgt \<Rightarrow>
                  if tgt = [] then (True, c, calls)
                  else if \<not> isLive c
                  then (case notify ob tgt s c of (ok, c', calls') \<Rightarrow> (ok, c', calls @ calls'))
                  else (True, c, calls))
         | (Some NotLive, calls) \<Rightarrow>
             if isLive c then (True, c\<lparr>isLive := False\<rparr>, calls @ [SaveChannels])
             else (True, c, calls)))"

text \<open>
  The loop \<^verbatim>\<open>for (const channel of youtubeChannels)\<close> from position \<open>i\<close> on. \<open>w i\<close> is what
  the outside answers during the iteration at position \<open>i\<close>. The result lists, for every
  position, the record after the tick and the calls issued for it; after an exception
  the remaining channels are not visited. The tick is taken as one step: no command
  handler changes the array while the job awaits a call.
\<close>

fun tickFrom ::
  "string option \<Rightarrow> (nat \<Rightarrow> obs) \<Rightarrow> nat \<Rightarrow> channel list \<Rightarrow> (channel \<times> call list) list" where
  "tickFrom k w i [] = []"
| "tickFrom k w i (c # cs) =
     (case checkChannel k (w i) c of
        (ok, c', calls) \<Rightarrow>
          (c', calls) # (if ok then tickFrom k w (Suc i) cs else map (\<lambda>d. (d, [])) cs))"

text \<open>One run of the job scheduled by \<^verbatim>\<open>scheduleChecks\<close>, lines 511 to 561.\<close>

definition scheduleChecks ::
  "string option \<Rightarrow> (nat \<Rightarrow> obs) \<Rightarrow> channel list \<Rightarrow> (channel \<times> call list) list" where
  "scheduleChecks k w cs = tickFrom k w 0 cs"

text \<open>A sequence of ticks: each one starts from the registry the previous one left, no
  command changing the array in between.\<close>

fun runTicks ::
  "string option \<Rightarrow> (nat \<Rightarrow> obs) list \<Rightarrow> channel list \<Rightarrow> (channel \<times> call list) list list" where
  "runTicks k [] cs = []"
| "runTicks k (w # ws) cs =
     scheduleChecks k w cs # runTicks k ws (map fst (scheduleChecks k w cs))"

section \<open>Identifier resolver\<close>

text \<open>The object returned by \<^verbatim>\<open>getYoutubeIdentifier\<close>: \<^verbatim>\<open>{type, value}\<close> with type
  \<^verbatim>\<open>'id'\<close>, \<^verbatim>\<open>'handle'\<close> or \<^verbatim>\<open>'custom'\<close>.\<close>

datatype youtubeIdentifier = IdForm string | HandleForm string | CustomForm string

text \<open>The character class \<^verbatim>\<open>[a-zA-Z0-9_-]\<close>.\<close>

definition idChar :: "char \<Rightarrow> bool" where
  "idChar c =
     (let n = (of_char c :: nat)
      in (97 \<le> n \<and> n \<le> 122) \<or> (65 \<le> n \<and> n \<le> 90) \<or> (48 \<le> n \<and> n \<le> 57)
         \<or> c = CHR ''_'' \<or> c = CHR ''-'')"

text \<open>\<open>stripPrefix p s\<close> is the rest of \<open>s\<close> after \<open>p\<close>, when \<open>s\<close> starts with \<open>p\<close>.\<close>

fun stripPrefix :: "string \<Rightarrow> string \<Rightarrow> string option" where
  "stripPrefix [] s = Some s"
| "stripPrefix (p # ps) [] = None"
| "stripPrefix (p # ps) (x # xs) = (if p = x then stripPrefix ps xs else None)"

text \<open>
  \<open>regexSearch lit s\<close> is group 1 of \<^verbatim>\<open>s.match(/(?:https?:\/\/)?(?:www\.)?LIT([a-zA-Z0-9_-]+)/)\<close>,
  or \<open>None\<close> when there is no match. The regular expression is not anchored and its two
  leading groups are optional, so it matches exactly when \<open>lit\<close> occurs somewhere followed
  by a character of the class; the optional groups only move the start of the match.
  The three literals of the source cannot overlap themselves and are longer than the
  longest optional prefix, so the leftmost match belongs to the leftmost such occurrence,
  and the greedy group is the longest run of class characters after it.
\<close>

fun regexSearch :: "string \<Rightarrow> string \<Rightarrow> string option" where
  "regexSearch lit [] = None"
| "regexSearch lit (x # xs) =
     (case stripPrefix lit (x # xs) of
        None \<Rightarrow> regexSearch lit xs
      | Some rest \<Rightarrow>
          if takeWhile idChar rest = [] then regexSearch lit xs
          else Some (takeWhile idChar rest))"

text \<open>\<^verbatim>\<open>getYoutubeIdentifier(url)\<close>, lines 399 to 425. \<^verbatim>\<open>url.split('?')[0]\<close> is the text
  before the first question mark.\<close>

definition getYoutubeIdentifier :: "string \<Rightarrow> youtubeIdentifier option" where
  "getYoutubeIdentifier url =
     (let cleanUrl = takeWhile (\<lambda>c. c \<noteq> CHR ''?'') url
      in case regexSearch ''youtube.com/channel/'' cleanUrl of
           Some v \<Rightarrow> Some (IdForm v)
         | None \<Rightarrow>
             (case regexSearch ''youtube.com/@'' cleanUrl of
                Some v \<Rightarrow> Some (HandleForm v)
              | None \<Rightarrow>
                  (case regexSearch ''youtube.com/c/'' cleanUrl of
                     Some v \<Rightarrow> Some (CustomForm v)
                   | None \<Rightarrow> None)))"

text \<open>A result of the channel search, as far as the program reads it:
  \<^verbatim>\<open>snippet.channelId\<close> and \<^verbatim>\<open>id.channelId\<close>.\<close>

record searchItem =
  snippetChannelId :: "string option"
  idChannelId :: "string option"

text \<open>
  What the YouTube API answers to the three lookups of the command layer: the handle
  lookup (the items are channel ids), the search by name, and the channel details (the
  items are channel titles).
\<close>

record api =
  forHandle :: "string \<Rightarrow> string response"
  searchChannel :: "string \<Rightarrow> searchItem response"
  channelDetails :: "string \<Rightarrow> string response"

text \<open>JavaScript's \<^verbatim>\<open>a || b\<close> on strings that may be undefined.\<close>

definition orElse :: "string option \<Rightarrow> string option \<Rightarrow> string option" where
  "orElse a b = (if truthy a then a else b)"

text \<open>Lines 451 to 463 of \<^verbatim>\<open>resolveToChannelId\<close>: the search by name, after the calls
  \<open>calls\<close>. A rejected request or an unreadable body is caught by the function's
  \<^verbatim>\<open>catch\<close>, which returns null.\<close>

definition searchByUsername :: "api \<Rightarrow> string \<Rightarrow> call list \<Rightarrow> string option \<times> call list" where
  "searchByUsername a v calls =
     (case searchChannel a v of
        FetchError \<Rightarrow> None
      | Response ok b \<Rightarrow>
          if ok
          then (case b of
                  BadJson \<Rightarrow> None
                | Json its \<Rightarrow>
                    (case its of
                       Some (x # _) \<Rightarrow> orElse (snippetChannelId x) (idChannelId x)
                     | _ \<Rightarrow> None))
          else None,
      calls @ [GetChannelSearch v])"

text \<open>\<^verbatim>\<open>resolveToChannelId(identifier)\<close>, lines 428 to 468.\<close>

definition resolveToChannelId :: "api \<Rightarrow> youtubeIdentifier option \<Rightarrow> string option \<times> call list" where
  "resolveToChannelId a identifier =
     (case identifier of
        None \<Rightarrow> (None, [])
      | Some (IdForm v) \<Rightarrow> (Some v, [])
      | Some (HandleForm v) \<Rightarrow>
          (case forHandle a v of
             FetchError \<Rightarrow> (None, [GetChannelForHandle v])
           | Response ok b \<Rightarrow>
               if ok
               then (case b of
                       BadJson \<Rightarrow> (None, [GetChannelForHandle v])
                     | Json its \<Rightarrow>
                         (case its of
                            Some (x # _) \<Rightarrow> (Some x, [GetChannelForHandle v])
                          | _ \<Rightarrow> searchByUsername a v [GetChannelForHandle v]))
               else searchByUsername a v [GetChannelForHandle v])
      | Some (CustomForm v) \<Rightarrow> searchByUsername a v [])"

section \<open>Channel registry: the commands\<close>

text \<open>A command message, after the prefix and the command word are removed:
  whether the member has the administrator permission, the remaining words,
  \<^verbatim>\<open>message.channel.id\<close> and \<^verbatim>\<open>message.author.tag\<close>.\<close>

record message =
  isAdministrator :: bool
  args :: "string list"
  messageChannelId :: string
  authorTag :: string

text \<open>The replies of the two commands.\<close>

datatype reply =
    NeedAdministrator
  | NeedUrl
  | InvalidUrl
  | CouldNotFind
  | AlreadyMonitored "string option"
  | Added string
  | ErrorAdding
  | Removed
  | NotInList

text \<open>
  The command \<^verbatim>\<open>addchannel\<close>, lines 595 to 660. Its handler gives up control at the
  \<^verbatim>\<open>await\<close> of the verification request (line 627), after the test for an existing
  channel (line 621) and before the push (line 644); other handlers can run there. The
  command is therefore modelled in two parts.

  The first part, lines 595 to 624, reads the array at line 621 and does not change it.
  It ends the command with a reply, or goes on with the resolved channel id. The
  requests of \<^verbatim>\<open>resolveToChannelId\<close> come before line 621 and do not touch the array.
\<close>

definition addchannelBegin ::
  "api \<Rightarrow> message \<Rightarrow> channel list \<Rightarrow> (reply \<times> call list) + (string \<times> call list)" where
  "addchannelBegin a m cs =
     (if \<not> isAdministrator m then Inl (NeedAdministrator, [])
      else
        (case args m of
           [] \<Rightarrow> Inl (NeedUrl, [])
         | channelUrl # _ \<Rightarrow>
             (case getYoutubeIdentifier channelUrl of
                None \<Rightarrow> Inl (InvalidUrl, [])
              | Some ident \<Rightarrow>
                  (case resolveToChannelId a (Some ident) of
                     (None, calls) \<Rightarrow> Inl (CouldNotFind, calls)
                   | (Some cid, calls) \<Rightarrow>
                       if cid = [] then Inl (CouldNotFind, calls)
                       else
                         (case find (\<lambda>c. channelId c = cid) cs of
                            Some existingChannel \<Rightarrow>
                              Inl (AlreadyMonitored (notificationChannelId existingChannel), calls)
                          | None \<Rightarrow> Inr (cid, calls))))))"

text \<open>
  The second part, lines 626 to 659, for the channel id \<open>cid\<close> after the calls \<open>calls\<close>:
  the answer to the verification request and the push, on the array \<open>cs\<close> as it is when
  the handler goes on. \<open>now\<close> is the clock read for \<^verbatim>\<open>addedAt\<close>. The result is the reply,
  the array afterwards and the calls issued.
\<close>

definition addchannelFinish ::
  "api \<Rightarrow> timestamp \<Rightarrow> message \<Rightarrow> string \<Rightarrow> call list \<Rightarrow> channel list \<Rightarrow>
   reply \<times> channel list \<times> call list" where
  "addchannelFinish a now m cid calls cs =
     (case channelDetails a cid of
        FetchError \<Rightarrow> (ErrorAdding, cs, calls @ [GetChannelDetails cid])
      | Response ok b \<Rightarrow>
          if \<not> ok then (ErrorAdding, cs, calls @ [GetChannelDetails cid])
          else
            (case b of
               BadJson \<Rightarrow> (ErrorAdding, cs, calls @ [GetChannelDetails cid])
             | Json its \<Rightarrow>
                 (case its of
                    Some (name # _) \<Rightarrow>
                      (Added name,
                       cs @ [\<lparr>channelId = cid, channelName = name,
                               notificationChannelId = Some (messageChannelId m),
                               addedBy = authorTag m, addedAt = now,
                               isLive = False, lastNotified = None\<rparr>],
                       calls @ [GetChannelDetails cid, SaveChannels])
                  | _ \<Rightarrow> (CouldNotFind, cs, calls @ [GetChannelDetails cid]))))"

text \<open>One \<^verbatim>\<open>addchannel\<close> run from its start to its end with no other handler in between.\<close>

definition addchannel ::
  "api \<Rightarrow> timestamp \<Rightarrow> message \<Rightarrow> channel list \<Rightarrow> reply \<times> channel list \<times> call list" where
  "addchannel a now m cs =
     (case addchannelBegin a m cs of
        Inl (r, calls) \<Rightarrow> (r, cs, calls)
      | Inr (cid, calls) \<Rightarrow> addchannelFinish a now m cid calls cs)"

text \<open>
  Two \<^verbatim>\<open>addchannel\<close> messages where the second is handled while the first handler waits
  for its verification request: both run their first part on the same array, then the
  first finishes and the second finishes on what the first left. The result is the two
  replies and the array afterwards.
\<close>

definition addchannelOverlapped ::
  "api \<Rightarrow> timestamp \<Rightarrow> message \<Rightarrow> timestamp \<Rightarrow> message \<Rightarrow> channel list \<Rightarrow>
   reply \<times> reply \<times> channel list" where
  "addchannelOverlapped a now1 m1 now2 m2 cs =
     (case addchannelBegin a m1 cs of
        Inl (r1, _) \<Rightarrow> (case addchannel a now2 m2 cs of (r2, cs2, _) \<Rightarrow> (r1, r2, cs2))
      | Inr (cid1, calls1) \<Rightarrow>
          (case addchannelBegin a m2 cs of
             Inl (r2, _) \<Rightarrow>
               (case addchannelFinish a now1 m1 cid1 calls1 cs of (r1, cs1, _) \<Rightarrow> (r1, r2, cs1))
           | Inr (cid2, calls2) \<Rightarrow>
               (case addchannelFinish a now1 m1 cid1 calls1 cs of
                  (r1, cs1, _) \<Rightarrow>
                    (case addchannelFinish a now2 m2 cid2 calls2 cs1 of
                       (r2, cs2, _) \<Rightarrow> (r1, r2, cs2)))))"

text \<open>\<^verbatim>\<open>args.join(' ')\<close>.\<close>

fun join :: "string list \<Rightarrow> string" where
  "join [] = []"
| "join [x] = x"
| "join (x # y # ys) = x @ '' '' @ join (y # ys)"

text \<open>\<^verbatim>\<open>s.startsWith(q)\<close> and \<^verbatim>\<open>s.includes(q)\<close>.\<close>

fun startsWith :: "string \<Rightarrow> string \<Rightarrow> bool" where
  "startsWith s [] = True"
| "startsWith [] (q # qs) = False"
| "startsWith (x # xs) (q # qs) = (x = q \<and> startsWith xs qs)"

fun includesStr :: "string \<Rightarrow> string \<Rightarrow> bool" where
  "includesStr [] q = (q = [])"
| "includesStr (x # xs) q = (startsWith (x # xs) q \<or> includesStr xs q)"

text \<open>
  The filter of line 693: the channel's name contains the query, both passed through
  \<^verbatim>\<open>toLowerCase\<close>. \<open>lc\<close> is \<^verbatim>\<open>String.prototype.toLowerCase\<close>, a built-in of the language
  whose case mapping over all of Unicode is not part of the source: it is a parameter,
  and what is proved holds for every such function.
\<close>

definition nameMatches :: "(string \<Rightarrow> string) \<Rightarrow> string \<Rightarrow> channel \<Rightarrow> bool" where
  "nameMatches lc query c = includesStr (lc (channelName c)) (lc query)"

text \<open>
  Lines 675 to 688 of \<^verbatim>\<open>removechannel\<close>: the removal by channel id. The result is the
  array afterwards, the flag \<^verbatim>\<open>removed\<close> and the calls issued.
\<close>

definition removeById :: "api \<Rightarrow> string \<Rightarrow> channel list \<Rightarrow> channel list \<times> bool \<times> call list" where
  "removeById a query cs =
     (case getYoutubeIdentifier query of
        None \<Rightarrow> (cs, False, [])
      | Some identifier \<Rightarrow>
          (case resolveToChannelId a (Some identifier) of
             (None, calls) \<Rightarrow> (cs, False, calls)
           | (Some cid, calls) \<Rightarrow>
               if cid = [] then (cs, False, calls)
               else (filter (\<lambda>c. channelId c \<noteq> cid) cs,
                     length (filter (\<lambda>c. channelId c \<noteq> cid) cs) < length cs, calls)))"

text \<open>The command \<^verbatim>\<open>removechannel\<close>, lines 662 to 705.\<close>

definition removechannel ::
  "(string \<Rightarrow> string) \<Rightarrow> api \<Rightarrow> message \<Rightarrow> channel list \<Rightarrow> reply \<times> channel list \<times> call list"
  where
  "removechannel lc a m cs =
     (if \<not> isAdministrator m then (NeedAdministrator, cs, [])
      else if length (args m) < 1 then (NeedUrl, cs, [])
      else
        (let query = join (args m)
         in case removeById a query cs of
              (cs1, removed1, calls) \<Rightarrow>
                (let cs2 = (if \<not> removed1 then filter (\<lambda>c. \<not> nameMatches lc query c) cs1 else cs1);
                     removed = (if \<not> removed1 then length cs2 < length cs1 else removed1)
                 in if removed then (Removed, cs2, calls @ [SaveChannels])
                    else (NotInList, cs2, calls))))"

section \<open>Notions used to state the properties\<close>

text \<open>The iteration at position \<open>p\<close> is reached in a tick when no earlier iteration
  of that tick ended the job with an exception.\<close>

definition reached :: "string option \<Rightarrow> (nat \<Rightarrow> obs) \<Rightarrow> channel list \<Rightarrow> nat \<Rightarrow> bool" where
  "reached k w cs p = list_all (\<lambda>q. fst (checkChannel k (w q) (cs ! q))) [0..<p]"

text \<open>The snapshot of a channel: what the prober returns for it when it is asked.\<close>

definition snapshot :: "string option \<Rightarrow> obs \<Rightarrow> channel \<Rightarrow> status option" where
  "snapshot k ob c = fst (checkYouTubeLiveStatus k (liveSearch ob) (channelId c))"

text \<open>The notification calls (\<^verbatim>\<open>send\<close>) among the calls issued for one position in one
  tick.\<close>

definition isSend :: "call \<Rightarrow> bool" where
  "isSend c = (case c of Send _ _ \<Rightarrow> True | _ \<Rightarrow> False)"

definition notifyCalls :: "channel \<times> call list \<Rightarrow> nat" where
  "notifyCalls r = length (filter isSend (snd r))"

text \<open>The snapshot is a live one; the delivery at an iteration works (the destination
  is fetched, the embed is built and the message is sent); the delivery at an iteration
  raises no exception; no delivery before position \<open>p\<close> raises an exception.\<close>

definition liveSnapshot :: "string option \<Rightarrow> obs \<Rightarrow> channel \<Rightarrow> bool" where
  "liveSnapshot k ob c = (case snapshot k ob c of Some (Live _) \<Rightarrow> True | _ \<Rightarrow> False)"

definition delivers :: "obs \<Rightarrow> bool" where
  "delivers ob = (channelsFetch ob = TextChannel \<and> embedOk ob \<and> sendOk ob)"

definition quiet :: "obs \<Rightarrow> bool" where
  "quiet ob = (case channelsFetch ob of FetchRejects \<Rightarrow> False | NoChannel \<Rightarrow> True
               | TextChannel \<Rightarrow> embedOk ob \<and> sendOk ob)"

definition quietBefore :: "(nat \<Rightarrow> obs) \<Rightarrow> nat \<Rightarrow> bool" where
  "quietBefore w p = list_all (\<lambda>q. quiet (w q)) [0..<p]"

text \<open>
  A request of the resolver threw (the request was rejected, or the body of a
  successful response could not be read); a request was answered without any item
  (an error status, or a body whose items are absent or empty).
\<close>

definition threw :: "'a response \<Rightarrow> bool" where
  "threw r =
     (case r of
        FetchError \<Rightarrow> True
      | Response ok b \<Rightarrow> ok \<and> (case b of BadJson \<Rightarrow> True | Json _ \<Rightarrow> False))"

definition noItems :: "'a response \<Rightarrow> bool" where
  "noItems r =
     (case r of
        FetchError \<Rightarrow> False
      | Response ok b \<Rightarrow>
          \<not> ok \<or> (case b of BadJson \<Rightarrow> False | Json its \<Rightarrow>
                      (case its of Some (_ # _) \<Rightarrow> False | _ \<Rightarrow> True)))"

text \<open>The channel key a query resolves to; the key the command \<^verbatim>\<open>addchannel\<close> resolves
  its first word to; the record that \<^verbatim>\<open>addchannel\<close> pushes.\<close>

definition queryKey :: "api \<Rightarrow> string \<Rightarrow> string option" where
  "queryKey a q = fst (resolveToChannelId a (getYoutubeIdentifier q))"

definition resolvedKey :: "api \<Rightarrow> message \<Rightarrow> string option" where
  "resolvedKey a m = (case args m of [] \<Rightarrow> None | channelUrl # _ \<Rightarrow> queryKey a channelUrl)"

definition newChannel :: "string \<Rightarrow> string \<Rightarrow> message \<Rightarrow> timestamp \<Rightarrow> channel" where
  "newChannel cid name m now =
     \<lparr>channelId = cid, channelName = name, notificationChannelId = Some (messageChannelId m),
      addedBy = authorTag m, addedAt = now, isLive = False, lastNotified = None\<rparr>"

subsection \<open>Sample values\<close>

definition streamX :: liveStream where
  "streamX = \<lparr>videoId = ''vid1'', title = ''Launch'',
              thumbnailUrl = ''https://i.ytimg.com/vi/vid1/hqdefault.jpg'',
              channelTitle = ''Alpha''\<rparr>"

definition chanA :: channel where
  "chanA = \<lparr>channelId = ''UCaaa'', channelName = ''Alpha'', notificationChannelId = Some ''100'',
            addedBy = ''ann#1'', addedAt = 0, isLive = False, lastNotified = None\<rparr>"

definition chanB :: channel where
  "chanB = \<lparr>channelId = ''UCbbb'', channelName = ''Beta Two'', notificationChannelId = Some ''200'',
            addedBy = ''bob#2'', addedAt = 5, isLive = False, lastNotified = None\<rparr>"

text \<open>At time \<open>t\<close>: the channel is live and the delivery works; the channel is offline;
  the API answers with an error status; the channel is live and \<^verbatim>\<open>send\<close> rejects.\<close>

definition obLive :: "timestamp \<Rightarrow> obs" where
  "obLive t = \<lparr>clockCheck = t, liveSearch = Response True (Json (Some [streamX])),
               channelsFetch = TextChannel, embedOk = True, sendOk = True, clockNotify = t + 1\<rparr>"

definition obOffline :: "timestamp \<Rightarrow> obs" where
  "obOffline t = \<lparr>clockCheck = t, liveSearch = Response True (Json (Some [])),
                  channelsFetch = TextChannel, embedOk = True, sendOk = True, clockNotify = t + 1\<rparr>"

definition obError :: "timestamp \<Rightarrow> obs" where
  "obError t = \<lparr>clockCheck = t, liveSearch = Response False BadJson,
                channelsFetch = TextChannel, embedOk = True, sendOk = True, clockNotify = t + 1\<rparr>"

definition obSendFails :: "timestamp \<Rightarrow> obs" where
  "obSendFails t = \<lparr>clockCheck = t, liveSearch = Response True (Json (Some [streamX])),
                    channelsFetch = TextChannel, embedOk = True, sendOk = False, clockNotify = t + 1\<rparr>"

text \<open>Worlds for the examples: the same answers at every position, or the answers of a
  list by position (and \<open>d\<close> beyond its end).\<close>

definition constWorld :: "obs \<Rightarrow> nat \<Rightarrow> obs" where
  "constWorld ob p = ob"

definition worldOf :: "obs \<Rightarrow> obs list \<Rightarrow> nat \<Rightarrow> obs" where
  "worldOf d os p = (if p < length os then os ! p else d)"

text \<open>Sample answers of the YouTube API to the lookups of the command layer.\<close>

definition apiEmptyHandle :: api where
  "apiEmptyHandle =
     \<lparr>forHandle = (\<lambda>_. Response True (Json (Some []))),
      searchChannel = (\<lambda>_. Response True (Json (Some
        [\<lparr>snippetChannelId = Some ''UCsearch'', idChannelId = None\<rparr>]))),
      channelDetails = (\<lambda>_. Response True (Json (Some [''Alpha''])))\<rparr>"

definition apiHandle :: api where
  "apiHandle =
     \<lparr>forHandle = (\<lambda>_. Response True (Json (Some [''UChandle'']))),
      searchChannel = (\<lambda>_. Response True (Json (Some []))),
      channelDetails = (\<lambda>_. Response True (Json (Some [''Gamma''])))\<rparr>"

definition apiNothing :: api where
  "apiNothing =
     \<lparr>forHandle = (\<lambda>_. Response True (Json (Some []))),
      searchChannel = (\<lambda>_. Response True (Json (Some []))),
      channelDetails = (\<lambda>_. Response True (Json (Some [])))\<rparr>"

definition apiDown :: api where
  "apiDown =
     \<lparr>forHandle = (\<lambda>_. FetchError), searchChannel = (\<lambda>_. FetchError),
      channelDetails = (\<lambda>_. FetchError)\<rparr>"

text \<open>
  A case folding for the examples: the letters A to Z go to a to z and every other
  character stays. On text made of ASCII characters only, as in the examples, this is
  what \<^verbatim>\<open>toLowerCase\<close> returns.
\<close>

definition lowerChar :: "char \<Rightarrow> char" where
  "lowerChar c =
     (case map_of (zip ''ABCDEFGHIJKLMNOPQRSTUVWXYZ'' ''abcdefghijklmnopqrstuvwxyz'') c of
        Some d \<Rightarrow> d
      | None \<Rightarrow> c)"

definition asciiLowerCase :: "string \<Rightarrow> string" where
  "asciiLowerCase s = map lowerChar s"

text \<open>A channel whose name quotes the URL of another channel.\<close>

definition chanD :: channel where
  "chanD = \<lparr>channelId = ''UCddd'', channelName = ''Mirror of youtube.com/channel/UCzzz'',
            notificationChannelId = Some ''400'', addedBy = ''eve#5'', addedAt = 11,
            isLive = False, lastNotified = None\<rparr>"

text \<open>An observation where the embed builder refuses the status.\<close>

definition obEmbedFails :: "timestamp \<Rightarrow> obs" where
  "obEmbedFails t = \<lparr>clockCheck = t, liveSearch = Response True (Json (Some [streamX])),
                     channelsFetch = TextChannel, embedOk = False, sendOk = True,
                     clockNotify = t + 1\<rparr>"

text \<open>A third channel and two command messages of an administrator.\<close>

definition chanC :: channel where
  "chanC = \<lparr>channelId = ''UCccc'', channelName = ''The alphaBet'', notificationChannelId = None,
            addedBy = ''cat#3'', addedAt = 9, isLive = True, lastNotified = Some 77\<rparr>"

definition msgAdd :: "string \<Rightarrow> message" where
  "msgAdd url = \<lparr>isAdministrator = True, args = [url], messageChannelId = ''300'',
                  authorTag = ''dan#4''\<rparr>"

definition msgRemove :: "string list \<Rightarrow> message" where
  "msgRemove ws = \<lparr>isAdministrator = True, args = ws, messageChannelId = ''300'',
                    authorTag = ''dan#4''\<rparr>"

section \<open>Properties of one tick\<close>

lemma length_tickFrom: "length (tickFrom k w i cs) = length cs"
  by (induction cs arbitrary: i) (auto split: prod.splits)

text \<open>The result of a tick at a position: the loop body's result when the position is
  reached, the untouched record otherwise.\<close>

lemma tickFrom_nth:
  "p < length cs \<Longrightarrow>
   tickFrom k w i cs ! p =
     (if (\<forall>q<p. fst (checkChannel k (w (i + q)) (cs ! q)))
      then snd (checkChannel k (w (i + p)) (cs ! p))
      else (cs ! p, []))"
proof (induction cs arbitrary: i p)
  case Nil
  then show ?case by simp
next
  case (Cons c cs)
  show ?case
  proof (cases p)
    case 0
    then show ?thesis by (simp split: prod.splits)
  next
    case (Suc p')
    with Cons.prems have lt: "p' < length cs" by simp
    obtain ok c' calls where cc: "checkChannel k (w i) c = (ok, c', calls)"
      by (cases "checkChannel k (w i) c") auto
    show ?thesis
    proof (cases ok)
      case True
      with cc Suc lt Cons.IH [OF lt, of "Suc i"] show ?thesis
        by (auto simp add: All_less_Suc2)
    next
      case False
      with cc Suc lt show ?thesis
        by (auto simp add: All_less_Suc2)
    qed
  qed
qed

lemma scheduleChecks_nth:
  "p < length cs \<Longrightarrow>
   scheduleChecks k w cs ! p =
     (if reached k w cs p then snd (checkChannel k (w p) (cs ! p)) else (cs ! p, []))"
  by (simp add: scheduleChecks_def tickFrom_nth reached_def list_all_iff)

lemma checkChannel_recent: "recentlyNotified ob c \<Longrightarrow> checkChannel k ob c = (True, c, [])"
  by (simp add: checkChannel_def)

lemma snapshot_Some:
  "snapshot k ob c = Some st \<Longrightarrow>
   checkYouTubeLiveStatus k (liveSearch ob) (channelId c) = (Some st, [GetLiveSearch (channelId c)])"
  by (auto simp add: snapshot_def checkYouTubeLiveStatus_def split: if_splits)

lemma snapshot_None:
  "snapshot k ob c = None \<Longrightarrow>
   \<exists>calls. checkYouTubeLiveStatus k (liveSearch ob) (channelId c) = (None, calls)"
  by (cases "checkYouTubeLiveStatus k (liveSearch ob) (channelId c)") (simp add: snapshot_def)

lemma checkChannel_offline:
  "\<not> recentlyNotified ob c \<Longrightarrow> snapshot k ob c = Some NotLive \<Longrightarrow>
   checkChannel k ob c =
     (if isLive c then (True, c\<lparr>isLive := False\<rparr>, [GetLiveSearch (channelId c), SaveChannels])
      else (True, c, [GetLiveSearch (channelId c)]))"
  by (simp add: checkChannel_def snapshot_Some)

lemma checkChannel_failed:
  "\<not> recentlyNotified ob c \<Longrightarrow> snapshot k ob c = None \<Longrightarrow>
   fst (checkChannel k ob c) \<and> fst (snd (checkChannel k ob c)) = c"
  using snapshot_None [of k ob c] by (auto simp add: checkChannel_def)

lemma checkChannel_live:
  "\<not> recentlyNotified ob c \<Longrightarrow> snapshot k ob c = Some (Live s) \<Longrightarrow>
   checkChannel k ob c =
     (case notificationChannelId c of
        None \<Rightarrow> (True, c, [GetLiveSearch (channelId c)])
      | Some tgt \<Rightarrow>
          if tgt = [] then (True, c, [GetLiveSearch (channelId c)])
          else if \<not> isLive c
          then (case notify ob tgt s c of
                  (ok, c', calls') \<Rightarrow> (ok, c', GetLiveSearch (channelId c) # calls'))
          else (True, c, [GetLiveSearch (channelId c)]))"
  by (simp add: checkChannel_def snapshot_Some split: option.splits prod.splits)

lemma tickFrom_Cons:
  "tickFrom k w i (c # cs) =
     snd (checkChannel k (w i) c) #
     (if fst (checkChannel k (w i) c) then tickFrom k w (Suc i) cs
      else map (\<lambda>d. (d, [])) cs)"
  by (simp split: prod.splits)

lemma tickFrom_drop:
  "p < length cs \<Longrightarrow> \<forall>q\<le>p. fst (checkChannel k (w (i + q)) (cs ! q)) \<Longrightarrow>
   drop (Suc p) (tickFrom k w i cs) = tickFrom k w (i + Suc p) (drop (Suc p) cs)"
proof (induction cs arbitrary: i p)
  case Nil
  then show ?case by simp
next
  case (Cons c cs)
  from Cons.prems(2) have ok: "fst (checkChannel k (w i) c)" by force
  show ?case
  proof (cases p)
    case 0
    with ok show ?thesis by (simp add: tickFrom_Cons del: tickFrom.simps)
  next
    case (Suc p')
    with Cons.prems have lt: "p' < length cs" by simp
    have "\<forall>q\<le>p'. fst (checkChannel k (w (Suc i + q)) (cs ! q))"
      using Cons.prems(2) Suc by (auto simp add: All_less_Suc2 le_less_Suc_eq dest: spec [of _ "Suc q" for q])
    from Cons.IH [OF lt this] ok Suc show ?thesis
      by (simp add: tickFrom_Cons del: tickFrom.simps)
  qed
qed

lemma tickFrom_abort:
  "p < length cs \<Longrightarrow> \<forall>q<p. fst (checkChannel k (w (i + q)) (cs ! q)) \<Longrightarrow>
   \<not> fst (checkChannel k (w (i + p)) (cs ! p)) \<Longrightarrow>
   drop (Suc p) (tickFrom k w i cs) = map (\<lambda>d. (d, [])) (drop (Suc p) cs)"
proof (induction cs arbitrary: i p)
  case Nil
  then show ?case by simp
next
  case (Cons c cs)
  show ?case
  proof (cases p)
    case 0
    with Cons.prems show ?thesis by (simp add: tickFrom_Cons del: tickFrom.simps)
  next
    case (Suc p')
    with Cons.prems have lt: "p' < length cs" by simp
    from Cons.prems(2) Suc have ok: "fst (checkChannel k (w i) c)" by force
    have a: "\<forall>q<p'. fst (checkChannel k (w (Suc i + q)) (cs ! q))"
      using Cons.prems(2) Suc by (simp add: All_less_Suc2)
    have b: "\<not> fst (checkChannel k (w (Suc i + p')) (cs ! p'))"
      using Cons.prems(3) Suc by simp
    from Cons.IH [OF lt a b] ok Suc show ?thesis
      by (simp add: tickFrom_Cons del: tickFrom.simps)
  qed
qed


lemma reached_le:
  "reached k w cs p \<Longrightarrow> fst (checkChannel k (w p) (cs ! p)) \<Longrightarrow>
   \<forall>q\<le>p. fst (checkChannel k (w (0 + q)) (cs ! q))"
  by (auto simp add: reached_def list_all_iff le_less)

lemma reached_less:
  "reached k w cs p \<Longrightarrow> \<forall>q<p. fst (checkChannel k (w (0 + q)) (cs ! q))"
  by (simp add: reached_def list_all_iff)

text \<open>
  C3. A channel whose \<^verbatim>\<open>lastNotified\<close> is set and less than one hour (3600000 ms) before
  the clock of its iteration is skipped in that tick: the loop body continues at once,
  and in the tick as a whole the record at its position is unchanged and no call at all,
  hence no probe, is issued for it.
\<close>

theorem cooldown_skips_channel:
  "p < length cs \<Longrightarrow> lastNotified (cs ! p) = Some t \<Longrightarrow>
   clockCheck (w p) - t < 60 * 60 * 1000 \<Longrightarrow>
   checkChannel k (w p) (cs ! p) = (True, cs ! p, []) \<and>
   scheduleChecks k w cs ! p = (cs ! p, [])"
  by (simp add: scheduleChecks_nth checkChannel_recent recentlyNotified_def)

theorem cooldown_skips_channel_witness:
  "(1::nat) < length [chanB, chanA\<lparr>isLive := True, lastNotified := Some 1000\<rparr>] \<and>
   lastNotified ([chanB, chanA\<lparr>isLive := True, lastNotified := Some 1000\<rparr>] ! 1) = Some 1000 \<and>
   clockCheck (obLive 3600999) - 1000 < 60 * 60 * 1000 \<and>
   scheduleChecks (Some ''key'') (\<lambda>_. obLive 3600999)
     [chanB, chanA\<lparr>isLive := True, lastNotified := Some 1000\<rparr>] ! 1 =
     (chanA\<lparr>isLive := True, lastNotified := Some 1000\<rparr>, [])"
  using cooldown_skips_channel
    [of 1 "[chanB, chanA\<lparr>isLive := True, lastNotified := Some 1000\<rparr>]" 1000
        "\<lambda>_. obLive 3600999" "Some ''key''"]
  by (simp add: chanA_def obLive_def)

section \<open>Properties of the prober\<close>

text \<open>
  C4. When the probe issues its request (the API key is set): a response whose status is
  not a success gives null, the probe failure; a successful response with no item gives
  \<^verbatim>\<open>{isLive: false}\<close>; a successful response with one or more items gives the live status
  made of the first item's video id, title, thumbnail and channel title. One request is
  issued in each case.
\<close>

theorem probe_contract:
  "truthy k \<Longrightarrow>
   checkYouTubeLiveStatus k (Response False b) cid = (None, [GetLiveSearch cid]) \<and>
   checkYouTubeLiveStatus k (Response True (Json (Some []))) cid =
     (Some NotLive, [GetLiveSearch cid]) \<and>
   checkYouTubeLiveStatus k (Response True (Json None)) cid =
     (Some NotLive, [GetLiveSearch cid]) \<and>
   checkYouTubeLiveStatus k (Response True (Json (Some (x # xs)))) cid =
     (Some (Live \<lparr>videoId = videoId x, title = title x, thumbnailUrl = thumbnailUrl x,
                   channelTitle = channelTitle x\<rparr>), [GetLiveSearch cid])"
  by (simp add: checkYouTubeLiveStatus_def)

theorem probe_contract_witness:
  "truthy (Some ''key'') \<and>
   checkYouTubeLiveStatus (Some ''key'') (Response False BadJson) ''UCaaa'' =
     (None, [GetLiveSearch ''UCaaa'']) \<and>
   checkYouTubeLiveStatus (Some ''key'') (Response True (Json (Some []))) ''UCaaa'' =
     (Some NotLive, [GetLiveSearch ''UCaaa'']) \<and>
   checkYouTubeLiveStatus (Some ''key'') (Response True (Json (Some [streamX, streamX])))
     ''UCaaa'' =
     (Some (Live \<lparr>videoId = ''vid1'', title = ''Launch'',
                   thumbnailUrl = ''https://i.ytimg.com/vi/vid1/hqdefault.jpg'',
                   channelTitle = ''Alpha''\<rparr>), [GetLiveSearch ''UCaaa''])"
  using probe_contract [of "Some ''key''" BadJson "''UCaaa''" streamX "[streamX]"]
  by (simp add: truthy_def streamX_def)

section \<open>Properties of the transition engine\<close>

text \<open>
  C8. When the iteration of a channel is reached and not skipped, the snapshot says not
  live and the record's \<^verbatim>\<open>isLive\<close> is true, the tick stores the record with \<^verbatim>\<open>isLive\<close>
  set to false and every other field, \<^verbatim>\<open>lastNotified\<close> among them, as it was; the calls
  issued for the channel are the probe and the save, so nothing is sent.
\<close>

theorem live_to_offline_edge:
  "p < length cs \<Longrightarrow> reached k w cs p \<Longrightarrow> \<not> recentlyNotified (w p) (cs ! p) \<Longrightarrow>
   snapshot k (w p) (cs ! p) = Some NotLive \<Longrightarrow> isLive (cs ! p) \<Longrightarrow>
   scheduleChecks k w cs ! p =
     ((cs ! p)\<lparr>isLive := False\<rparr>, [GetLiveSearch (channelId (cs ! p)), SaveChannels]) \<and>
   lastNotified (fst (scheduleChecks k w cs ! p)) = lastNotified (cs ! p)"
  by (simp add: scheduleChecks_nth checkChannel_offline)

theorem live_to_offline_edge_witness:
  "(1::nat) < length [chanB, chanA\<lparr>isLive := True, lastNotified := Some 1000\<rparr>] \<and>
   reached (Some ''key'') (constWorld (obOffline 3601000))
     [chanB, chanA\<lparr>isLive := True, lastNotified := Some 1000\<rparr>] 1 \<and>
   \<not> recentlyNotified (constWorld (obOffline 3601000) 1)
     ([chanB, chanA\<lparr>isLive := True, lastNotified := Some 1000\<rparr>] ! 1) \<and>
   snapshot (Some ''key'') (constWorld (obOffline 3601000) 1)
     ([chanB, chanA\<lparr>isLive := True, lastNotified := Some 1000\<rparr>] ! 1) = Some NotLive \<and>
   isLive ([chanB, chanA\<lparr>isLive := True, lastNotified := Some 1000\<rparr>] ! 1) \<and>
   scheduleChecks (Some ''key'') (constWorld (obOffline 3601000))
     [chanB, chanA\<lparr>isLive := True, lastNotified := Some 1000\<rparr>] ! 1 =
     (chanA\<lparr>isLive := False, lastNotified := Some 1000\<rparr>, [GetLiveSearch ''UCaaa'', SaveChannels])"
proof -
  let ?cs = "[chanB, chanA\<lparr>isLive := True, lastNotified := Some 1000\<rparr>]"
  let ?w = "constWorld (obOffline 3601000)"
  have h1: "(1::nat) < length ?cs" by simp
  have h2: "reached (Some ''key'') ?w ?cs 1"
    by (simp add: reached_def checkChannel_def recentlyNotified_def checkYouTubeLiveStatus_def
        truthy_def constWorld_def obOffline_def chanB_def)
  have h3: "\<not> recentlyNotified (?w 1) (?cs ! 1)"
    by (simp add: recentlyNotified_def constWorld_def obOffline_def chanA_def)
  have h4: "snapshot (Some ''key'') (?w 1) (?cs ! 1) = Some NotLive"
    by (simp add: snapshot_def checkYouTubeLiveStatus_def truthy_def constWorld_def obOffline_def)
  have h5: "isLive (?cs ! 1)" by simp
  from live_to_offline_edge [OF h1 h2 h3 h4 h5] h1 h2 h3 h4 h5 show ?thesis
    by (simp add: chanA_def)
qed

text \<open>
  C2, as the specification states it, fails: for a channel without notification target
  whose probe reports live, the tick leaves \<^verbatim>\<open>isLive\<close> false.
\<close>

theorem live_probe_without_target_counterexample:
  "snapshot (Some ''key'') (constWorld (obLive 0) 0) (chanA\<lparr>notificationChannelId := None\<rparr>) =
     Some (Live streamX) \<and>
   \<not> isLive (fst (scheduleChecks (Some ''key'') (constWorld (obLive 0))
                    [chanA\<lparr>notificationChannelId := None\<rparr>] ! 0))"
  by (simp add: snapshot_def scheduleChecks_def checkChannel_def recentlyNotified_def
      checkYouTubeLiveStatus_def truthy_def constWorld_def obLive_def chanA_def)

text \<open>
  C2, amended. When the iteration of a channel is reached and not skipped and the probe
  reports live, \<^verbatim>\<open>isLive\<close> is true afterwards exactly when it was true before or the
  notification was delivered (the target is present, the destination was fetched, the
  embed was built and the message sent); with the target missing the record is unchanged
  and only the probe is issued for the channel.
\<close>

theorem live_probe_sets_isLive_on_delivery:
  "p < length cs \<Longrightarrow> reached k w cs p \<Longrightarrow> \<not> recentlyNotified (w p) (cs ! p) \<Longrightarrow>
   snapshot k (w p) (cs ! p) = Some (Live s) \<Longrightarrow>
   isLive (fst (scheduleChecks k w cs ! p)) =
     (isLive (cs ! p) \<or>
      truthy (notificationChannelId (cs ! p)) \<and> channelsFetch (w p) = TextChannel \<and>
      embedOk (w p) \<and> sendOk (w p)) \<and>
   (\<not> truthy (notificationChannelId (cs ! p)) \<longrightarrow>
      scheduleChecks k w cs ! p = (cs ! p, [GetLiveSearch (channelId (cs ! p))]))"
  by (auto simp add: scheduleChecks_nth checkChannel_live notify_def truthy_def
      split: option.splits fetched.splits)

theorem live_probe_sets_isLive_on_delivery_witness:
  "(0::nat) < length [chanA\<lparr>notificationChannelId := None\<rparr>] \<and>
   reached (Some ''key'') (constWorld (obLive 0)) [chanA\<lparr>notificationChannelId := None\<rparr>] 0 \<and>
   \<not> recentlyNotified (constWorld (obLive 0) 0) ([chanA\<lparr>notificationChannelId := None\<rparr>] ! 0) \<and>
   snapshot (Some ''key'') (constWorld (obLive 0) 0) ([chanA\<lparr>notificationChannelId := None\<rparr>] ! 0)
     = Some (Live streamX) \<and>
   \<not> truthy (notificationChannelId ([chanA\<lparr>notificationChannelId := None\<rparr>] ! 0)) \<and>
   scheduleChecks (Some ''key'') (constWorld (obLive 0)) [chanA\<lparr>notificationChannelId := None\<rparr>] ! 0
     = (chanA\<lparr>notificationChannelId := None\<rparr>, [GetLiveSearch ''UCaaa'']) \<and>
   snapshot (Some ''key'') (constWorld (obLive 0) 0) ([chanA] ! 0) = Some (Live streamX) \<and>
   truthy (notificationChannelId ([chanA] ! 0)) \<and>
   isLive (fst (scheduleChecks (Some ''key'') (constWorld (obLive 0)) [chanA] ! 0)) \<and>
   snapshot (Some ''key'') (constWorld (obEmbedFails 0) 0) ([chanA] ! 0) = Some (Live streamX) \<and>
   \<not> embedOk (constWorld (obEmbedFails 0) 0) \<and>
   \<not> isLive (fst (scheduleChecks (Some ''key'') (constWorld (obEmbedFails 0)) [chanA] ! 0))"
proof -
  let ?c = "chanA\<lparr>notificationChannelId := None\<rparr>"
  let ?w = "constWorld (obLive 0)"
  have h1: "(0::nat) < length [?c]" and g1: "(0::nat) < length [chanA]" by simp_all
  have h2: "reached (Some ''key'') ?w [?c] 0" and g2: "reached (Some ''key'') ?w [chanA] 0"
    by (simp_all add: reached_def)
  have h3: "\<not> recentlyNotified (?w 0) ([?c] ! 0)" and g3: "\<not> recentlyNotified (?w 0) ([chanA] ! 0)"
    by (simp_all add: recentlyNotified_def chanA_def)
  have h4: "snapshot (Some ''key'') (?w 0) ([?c] ! 0) = Some (Live streamX)"
    and g4: "snapshot (Some ''key'') (?w 0) ([chanA] ! 0) = Some (Live streamX)"
    by (simp_all add: snapshot_def checkYouTubeLiveStatus_def truthy_def constWorld_def obLive_def)
  have h5: "\<not> truthy (notificationChannelId ([?c] ! 0))" by (simp add: truthy_def)
  have g5: "truthy (notificationChannelId ([chanA] ! 0))" by (simp add: truthy_def chanA_def)
  have g6: "channelsFetch (?w 0) = TextChannel \<and> embedOk (?w 0) \<and> sendOk (?w 0)"
    by (simp add: constWorld_def obLive_def)
  let ?e = "constWorld (obEmbedFails 0)"
  have e2: "reached (Some ''key'') ?e [chanA] 0" by (simp add: reached_def)
  have e3: "\<not> recentlyNotified (?e 0) ([chanA] ! 0)"
    by (simp add: recentlyNotified_def chanA_def)
  have e4: "snapshot (Some ''key'') (?e 0) ([chanA] ! 0) = Some (Live streamX)"
    by (simp add: snapshot_def checkYouTubeLiveStatus_def truthy_def constWorld_def
        obEmbedFails_def)
  have e6: "\<not> embedOk (?e 0)" "\<not> isLive ([chanA] ! 0)"
    by (simp_all add: constWorld_def obEmbedFails_def chanA_def)
  from live_probe_sets_isLive_on_delivery [OF g1 e2 e3 e4] e6
  have e7: "\<not> isLive (fst (scheduleChecks (Some ''key'') ?e [chanA] ! 0))" by simp
  from live_probe_sets_isLive_on_delivery [OF h1 h2 h3 h4]
    live_probe_sets_isLive_on_delivery [OF g1 g2 g3 g4] h1 h2 h3 h4 h5 g4 g5 g6 e4 e6 e7
  show ?thesis by (simp add: chanA_def)
qed

text \<open>
  C9. When the iteration of a channel is reached and not skipped and its probe fails
  (null), the record is unchanged, and the channels after it are processed by the loop
  exactly as it processes them from the next position on: probed, updated and notified
  by the same rules.
\<close>

theorem probe_failure_is_isolated:
  "p < length cs \<Longrightarrow> reached k w cs p \<Longrightarrow> \<not> recentlyNotified (w p) (cs ! p) \<Longrightarrow>
   snapshot k (w p) (cs ! p) = None \<Longrightarrow>
   fst (scheduleChecks k w cs ! p) = cs ! p \<and>
   drop (Suc p) (scheduleChecks k w cs) = tickFrom k w (Suc p) (drop (Suc p) cs)"
proof -
  assume p: "p < length cs" and r: "reached k w cs p"
    and n: "\<not> recentlyNotified (w p) (cs ! p)" and s: "snapshot k (w p) (cs ! p) = None"
  from checkChannel_failed [OF n s]
  have ok: "fst (checkChannel k (w p) (cs ! p))"
    and same: "fst (snd (checkChannel k (w p) (cs ! p))) = cs ! p" by simp_all
  from p r same have "fst (scheduleChecks k w cs ! p) = cs ! p"
    by (simp add: scheduleChecks_nth)
  moreover from tickFrom_drop [OF p reached_le [OF r ok]]
  have "drop (Suc p) (scheduleChecks k w cs) = tickFrom k w (Suc p) (drop (Suc p) cs)"
    by (simp add: scheduleChecks_def)
  ultimately show ?thesis by simp
qed

theorem probe_failure_is_isolated_witness:
  "(0::nat) < length [chanA, chanB] \<and>
   reached (Some ''key'') (worldOf (obLive 0) [obError 0, obLive 0]) [chanA, chanB] 0 \<and>
   \<not> recentlyNotified (worldOf (obLive 0) [obError 0, obLive 0] 0) ([chanA, chanB] ! 0) \<and>
   snapshot (Some ''key'') (worldOf (obLive 0) [obError 0, obLive 0] 0) ([chanA, chanB] ! 0) = None \<and>
   fst (scheduleChecks (Some ''key'') (worldOf (obLive 0) [obError 0, obLive 0]) [chanA, chanB] ! 0)
     = chanA \<and>
   drop (Suc 0) (scheduleChecks (Some ''key'') (worldOf (obLive 0) [obError 0, obLive 0])
     [chanA, chanB]) =
     [(chanB\<lparr>isLive := True, lastNotified := Some 1\<rparr>,
       [GetLiveSearch ''UCbbb'', ChannelsFetch ''200'', Send ''200'' streamX, SaveChannels])]"
proof -
  have h1: "(0::nat) < length [chanA, chanB]" by simp
  have h2: "reached (Some ''key'') (worldOf (obLive 0) [obError 0, obLive 0]) [chanA, chanB] 0"
    by (simp add: reached_def)
  have h3: "\<not> recentlyNotified (worldOf (obLive 0) [obError 0, obLive 0] 0) ([chanA, chanB] ! 0)"
    by (simp add: recentlyNotified_def chanA_def)
  have h4: "snapshot (Some ''key'') (worldOf (obLive 0) [obError 0, obLive 0] 0)
      ([chanA, chanB] ! 0) = None"
    by (simp add: snapshot_def checkYouTubeLiveStatus_def truthy_def worldOf_def obError_def)
  have e: "tickFrom (Some ''key'') (worldOf (obLive 0) [obError 0, obLive 0]) (Suc 0) [chanB] =
     [(chanB\<lparr>isLive := True, lastNotified := Some 1\<rparr>,
       [GetLiveSearch ''UCbbb'', ChannelsFetch ''200'', Send ''200'' streamX, SaveChannels])]"
    by (simp add: checkChannel_def recentlyNotified_def checkYouTubeLiveStatus_def truthy_def
        notify_def worldOf_def obLive_def chanB_def)
  from probe_failure_is_isolated [OF h1 h2 h3 h4] h1 h2 h3 h4 e show ?thesis by simp
qed

text \<open>
  C10. When the iteration of a channel reaches the delivery (live snapshot, target
  present, record not live) and \<^verbatim>\<open>client.channels.fetch\<close> or \<^verbatim>\<open>send\<close> rejects, the record
  is unchanged, and every later channel of the tick is left as it was with no call
  issued for it. The next tick is a fresh run of the job over the whole array.
\<close>

theorem failed_delivery_ends_tick:
  "p < length cs \<Longrightarrow> reached k w cs p \<Longrightarrow> \<not> recentlyNotified (w p) (cs ! p) \<Longrightarrow>
   snapshot k (w p) (cs ! p) = Some (Live s) \<Longrightarrow>
   truthy (notificationChannelId (cs ! p)) \<Longrightarrow> \<not> isLive (cs ! p) \<Longrightarrow>
   channelsFetch (w p) = FetchRejects \<or> channelsFetch (w p) = TextChannel \<and> \<not> sendOk (w p) \<Longrightarrow>
   fst (scheduleChecks k w cs ! p) = cs ! p \<and>
   drop (Suc p) (scheduleChecks k w cs) = map (\<lambda>d. (d, [])) (drop (Suc p) cs) \<and>
   runTicks k [w, w'] cs =
     [scheduleChecks k w cs, scheduleChecks k w' (map fst (scheduleChecks k w cs))]"
proof -
  assume p: "p < length cs" and r: "reached k w cs p"
    and n: "\<not> recentlyNotified (w p) (cs ! p)"
    and s: "snapshot k (w p) (cs ! p) = Some (Live s)"
    and t: "truthy (notificationChannelId (cs ! p))" and l: "\<not> isLive (cs ! p)"
    and f: "channelsFetch (w p) = FetchRejects \<or> channelsFetch (w p) = TextChannel \<and> \<not> sendOk (w p)"
  from t l f have cc: "\<not> fst (checkChannel k (w p) (cs ! p))"
      "fst (snd (checkChannel k (w p) (cs ! p))) = cs ! p"
    by (auto simp add: checkChannel_live [OF n s] notify_def truthy_def split: option.splits)
  from p r cc(2) have "fst (scheduleChecks k w cs ! p) = cs ! p"
    by (simp add: scheduleChecks_nth)
  moreover from cc(1) have "\<not> fst (checkChannel k (w (0 + p)) (cs ! p))" by simp
  from tickFrom_abort [OF p reached_less [OF r] this]
  have "drop (Suc p) (scheduleChecks k w cs) = map (\<lambda>d. (d, [])) (drop (Suc p) cs)"
    by (simp add: scheduleChecks_def)
  ultimately show ?thesis by simp
qed

theorem failed_delivery_ends_tick_witness:
  "(0::nat) < length [chanA, chanB] \<and>
   reached (Some ''key'') (worldOf (obLive 0) [obSendFails 0, obLive 0]) [chanA, chanB] 0 \<and>
   \<not> recentlyNotified (worldOf (obLive 0) [obSendFails 0, obLive 0] 0) ([chanA, chanB] ! 0) \<and>
   snapshot (Some ''key'') (worldOf (obLive 0) [obSendFails 0, obLive 0] 0) ([chanA, chanB] ! 0)
     = Some (Live streamX) \<and>
   truthy (notificationChannelId ([chanA, chanB] ! 0)) \<and> \<not> isLive ([chanA, chanB] ! 0) \<and>
   channelsFetch (worldOf (obLive 0) [obSendFails 0, obLive 0] 0) = TextChannel \<and>
   \<not> sendOk (worldOf (obLive 0) [obSendFails 0, obLive 0] 0) \<and>
   fst (scheduleChecks (Some ''key'') (worldOf (obLive 0) [obSendFails 0, obLive 0])
     [chanA, chanB] ! 0) = chanA \<and>
   drop (Suc 0) (scheduleChecks (Some ''key'') (worldOf (obLive 0) [obSendFails 0, obLive 0])
     [chanA, chanB]) = [(chanB, [])]"
proof -
  have h1: "(0::nat) < length [chanA, chanB]" by simp
  have h2: "reached (Some ''key'') (worldOf (obLive 0) [obSendFails 0, obLive 0]) [chanA, chanB] 0"
    by (simp add: reached_def)
  have h3: "\<not> recentlyNotified (worldOf (obLive 0) [obSendFails 0, obLive 0] 0) ([chanA, chanB] ! 0)"
    by (simp add: recentlyNotified_def chanA_def)
  have h4: "snapshot (Some ''key'') (worldOf (obLive 0) [obSendFails 0, obLive 0] 0)
      ([chanA, chanB] ! 0) = Some (Live streamX)"
    by (simp add: snapshot_def checkYouTubeLiveStatus_def truthy_def worldOf_def obSendFails_def)
  have h5: "truthy (notificationChannelId ([chanA, chanB] ! 0))"
    by (simp add: truthy_def chanA_def)
  have h6: "\<not> isLive ([chanA, chanB] ! 0)" by (simp add: chanA_def)
  have h7: "channelsFetch (worldOf (obLive 0) [obSendFails 0, obLive 0] 0) = TextChannel \<and>
    \<not> sendOk (worldOf (obLive 0) [obSendFails 0, obLive 0] 0)"
    by (simp add: worldOf_def obSendFails_def)
  then have h7': "channelsFetch (worldOf (obLive 0) [obSendFails 0, obLive 0] 0) = FetchRejects \<or>
    channelsFetch (worldOf (obLive 0) [obSendFails 0, obLive 0] 0) = TextChannel \<and>
    \<not> sendOk (worldOf (obLive 0) [obSendFails 0, obLive 0] 0)" by simp
  from failed_delivery_ends_tick [OF h1 h2 h3 h4 h5 h6 h7'] h1 h2 h3 h4 h5 h6 h7
  show ?thesis by simp
qed

section \<open>Sequences of ticks\<close>

lemma probe_calls_no_send:
  "filter isSend (snd (checkYouTubeLiveStatus k r cid)) = []"
  by (simp add: checkYouTubeLiveStatus_def isSend_def)

lemma checkChannel_cases:
  "checkChannel k ob c = (True, c, snd (checkYouTubeLiveStatus k (liveSearch ob) (channelId c))) \<or>
   checkChannel k ob c = (True, c, []) \<or>
   (snapshot k ob c = Some NotLive \<and> isLive c \<and> \<not> recentlyNotified ob c \<and>
    checkChannel k ob c = (True, c\<lparr>isLive := False\<rparr>, [GetLiveSearch (channelId c), SaveChannels])) \<or>
   (\<exists>s tgt. snapshot k ob c = Some (Live s) \<and> \<not> isLive c \<and> \<not> recentlyNotified ob c \<and>
      notificationChannelId c = Some tgt \<and> tgt \<noteq> [] \<and>
      checkChannel k ob c =
        (case notify ob tgt s c of (ok, c', calls') \<Rightarrow> (ok, c', GetLiveSearch (channelId c) # calls')))"
proof (cases "recentlyNotified ob c")
  case True
  then show ?thesis by (simp add: checkChannel_recent)
next
  case False
  show ?thesis
  proof (cases "snapshot k ob c")
    case None
    with snapshot_None [OF None] False show ?thesis
      by (auto simp add: checkChannel_def)
  next
    case (Some st)
    show ?thesis
    proof (cases st)
      case NotLive
      with Some False show ?thesis
        by (cases "isLive c") (simp_all add: checkChannel_offline snapshot_Some)
    next
      case (Live s)
      with Some False show ?thesis
        by (auto simp add: checkChannel_live snapshot_Some split: option.splits)
    qed
  qed
qed

lemma checkChannel_send:
  "0 < notifyCalls (snd (checkChannel k ob c)) \<Longrightarrow>
   \<not> isLive c \<and> liveSnapshot k ob c \<and> (sendOk ob \<longrightarrow> isLive (fst (snd (checkChannel k ob c))))"
  using checkChannel_cases [of k ob c]
  by (cases "channelsFetch ob")
    (auto simp add: notifyCalls_def probe_calls_no_send isSend_def notify_def liveSnapshot_def
      split: if_splits)

lemma checkChannel_notifyCalls_le: "notifyCalls (snd (checkChannel k ob c)) \<le> 1"
  using checkChannel_cases [of k ob c]
  by (cases "channelsFetch ob")
    (auto simp add: notifyCalls_def probe_calls_no_send isSend_def notify_def split: if_splits)

lemma checkChannel_goes_offline:
  "isLive c \<Longrightarrow> \<not> isLive (fst (snd (checkChannel k ob c))) \<Longrightarrow> snapshot k ob c = Some NotLive"
  using checkChannel_cases [of k ob c] by auto

lemma checkChannel_channelId: "channelId (fst (snd (checkChannel k ob c))) = channelId c"
  using checkChannel_cases [of k ob c]
  by (cases "channelsFetch ob") (auto simp add: notify_def split: if_splits)

lemma quiet_completes: "quiet ob \<Longrightarrow> fst (checkChannel k ob c)"
  using checkChannel_cases [of k ob c]
  by (cases "channelsFetch ob") (auto simp add: notify_def quiet_def split: if_splits)

lemma quietBefore_reached: "quietBefore w p \<Longrightarrow> reached k w cs p"
  by (simp add: quietBefore_def reached_def list_all_iff quiet_completes)


lemma length_scheduleChecks: "length (scheduleChecks k w cs) = length cs"
  by (simp add: scheduleChecks_def length_tickFrom)

lemma snapshot_channelId: "channelId c = channelId c' \<Longrightarrow> snapshot k ob c = snapshot k ob c'"
  by (simp add: snapshot_def)

lemma tick_skip:
  "p < length cs \<Longrightarrow> recentlyNotified (w p) (cs ! p) \<Longrightarrow> scheduleChecks k w cs ! p = (cs ! p, [])"
  by (simp add: scheduleChecks_nth checkChannel_recent)

lemma tick_send:
  "p < length cs \<Longrightarrow> 0 < notifyCalls (scheduleChecks k w cs ! p) \<Longrightarrow>
   \<not> isLive (cs ! p) \<and> liveSnapshot k (w p) (cs ! p) \<and>
   (sendOk (w p) \<longrightarrow> isLive (fst (scheduleChecks k w cs ! p)))"
  using checkChannel_send [of k "w p" "cs ! p"]
  by (cases "reached k w cs p") (simp_all add: scheduleChecks_nth notifyCalls_def)

lemma tick_notifyCalls_le: "p < length cs \<Longrightarrow> notifyCalls (scheduleChecks k w cs ! p) \<le> 1"
  using checkChannel_notifyCalls_le [of k "w p" "cs ! p"]
  by (cases "reached k w cs p") (simp_all add: scheduleChecks_nth notifyCalls_def)

lemma tick_goes_offline:
  "p < length cs \<Longrightarrow> isLive (cs ! p) \<Longrightarrow> \<not> isLive (fst (scheduleChecks k w cs ! p)) \<Longrightarrow>
   snapshot k (w p) (cs ! p) = Some NotLive"
  using checkChannel_goes_offline [of "cs ! p" k "w p"]
  by (cases "reached k w cs p") (simp_all add: scheduleChecks_nth)

lemma tick_channelId:
  "p < length cs \<Longrightarrow> channelId (fst (scheduleChecks k w cs ! p)) = channelId (cs ! p)"
  using checkChannel_channelId [of k "w p" "cs ! p"]
  by (cases "reached k w cs p") (simp_all add: scheduleChecks_nth)

lemma tick_notifies:
  "p < length cs \<Longrightarrow> reached k w cs p \<Longrightarrow> \<not> recentlyNotified (w p) (cs ! p) \<Longrightarrow>
   liveSnapshot k (w p) (cs ! p) \<Longrightarrow> truthy (notificationChannelId (cs ! p)) \<Longrightarrow>
   \<not> isLive (cs ! p) \<Longrightarrow> delivers (w p) \<Longrightarrow>
   fst (scheduleChecks k w cs ! p) =
     (cs ! p)\<lparr>isLive := True, lastNotified := Some (clockNotify (w p))\<rparr> \<and>
   notifyCalls (scheduleChecks k w cs ! p) = 1"
proof -
  assume p: "p < length cs" and r: "reached k w cs p"
    and n: "\<not> recentlyNotified (w p) (cs ! p)" and l: "liveSnapshot k (w p) (cs ! p)"
    and t: "truthy (notificationChannelId (cs ! p))" and o: "\<not> isLive (cs ! p)"
    and d: "delivers (w p)"
  from l obtain s where s: "snapshot k (w p) (cs ! p) = Some (Live s)"
    by (auto simp add: liveSnapshot_def split: option.splits status.splits)
  from t o d show ?thesis
    by (auto simp add: scheduleChecks_nth [OF p] r checkChannel_live [OF n s] notify_def
        truthy_def delivers_def notifyCalls_def isSend_def split: option.splits)
qed

lemma stays_live_no_send:
  "p < length cs \<Longrightarrow> isLive (cs ! p) \<Longrightarrow> j < length ws \<Longrightarrow>
   \<forall>m<j. snapshot k ((ws ! m) p) (cs ! p) \<noteq> Some NotLive \<Longrightarrow>
   notifyCalls (runTicks k ws cs ! j ! p) = 0"
proof (induction ws arbitrary: cs j)
  case Nil
  then show ?case by simp
next
  case (Cons w ws)
  show ?case
  proof (cases j)
    case 0
    with tick_send [OF Cons.prems(1), of k w] Cons.prems(2) show ?thesis by auto
  next
    case (Suc j')
    let ?cs1 = "map fst (scheduleChecks k w cs)"
    from Cons.prems(1) have p1: "p < length ?cs1" by (simp add: length_scheduleChecks)
    from Cons.prems(4) Suc have "snapshot k (w p) (cs ! p) \<noteq> Some NotLive" by force
    with tick_goes_offline [OF Cons.prems(1) Cons.prems(2), of k w]
    have "isLive (fst (scheduleChecks k w cs ! p))" by blast
    with Cons.prems(1) have l1: "isLive (?cs1 ! p)" by (simp add: length_scheduleChecks)
    from Cons.prems(3) Suc have j1: "j' < length ws" by simp
    have id: "channelId (?cs1 ! p) = channelId (cs ! p)"
      using Cons.prems(1) by (simp add: length_scheduleChecks tick_channelId)
    have "\<forall>m<j'. snapshot k ((ws ! m) p) (?cs1 ! p) \<noteq> Some NotLive"
    proof (intro allI impI)
      fix m assume "m < j'"
      with Cons.prems(4) Suc have "snapshot k (((w # ws) ! Suc m) p) (cs ! p) \<noteq> Some NotLive"
        by (metis Suc_less_eq)
      then show "snapshot k ((ws ! m) p) (?cs1 ! p) \<noteq> Some NotLive"
        by (simp add: snapshot_channelId [OF id])
    qed
    from Cons.IH [OF p1 l1 j1 this] Suc show ?thesis by simp
  qed
qed

lemma one_notification_per_run:
  "p < length cs \<Longrightarrow> i < j \<Longrightarrow> j < length ws \<Longrightarrow>
   0 < notifyCalls (runTicks k ws cs ! i ! p) \<Longrightarrow> sendOk ((ws ! i) p) \<Longrightarrow>
   0 < notifyCalls (runTicks k ws cs ! j ! p) \<Longrightarrow>
   \<exists>m. i < m \<and> m < j \<and> snapshot k ((ws ! m) p) (cs ! p) = Some NotLive"
proof (induction ws arbitrary: cs i j)
  case Nil
  then show ?case by simp
next
  case (Cons w ws)
  let ?cs1 = "map fst (scheduleChecks k w cs)"
  from Cons.prems(1) have p1: "p < length ?cs1" by (simp add: length_scheduleChecks)
  have id: "channelId (?cs1 ! p) = channelId (cs ! p)"
    using Cons.prems(1) by (simp add: length_scheduleChecks tick_channelId)
  from Cons.prems(2) obtain j' where j: "j = Suc j'" by (cases j) auto
  with Cons.prems(3) have j1: "j' < length ws" by simp
  from Cons.prems(6) j have sj: "0 < notifyCalls (runTicks k ws ?cs1 ! j' ! p)" by simp
  show ?case
  proof (cases i)
    case 0
    with Cons.prems(4,5) tick_send [OF Cons.prems(1), of k w]
    have "isLive (fst (scheduleChecks k w cs ! p))" by simp
    with Cons.prems(1) have l1: "isLive (?cs1 ! p)" by (simp add: length_scheduleChecks)
    have "\<not> (\<forall>m<j'. snapshot k ((ws ! m) p) (?cs1 ! p) \<noteq> Some NotLive)"
      using stays_live_no_send [OF p1 l1 j1, of k] sj by auto
    then obtain m where m: "m < j'" "snapshot k ((ws ! m) p) (?cs1 ! p) = Some NotLive"
      by auto
    then have "snapshot k (((w # ws) ! Suc m) p) (cs ! p) = Some NotLive"
      by (simp add: snapshot_channelId [OF id])
    with m(1) 0 j show ?thesis by (intro exI [of _ "Suc m"]) simp
  next
    case (Suc i')
    with Cons.prems(2) j have ij: "i' < j'" by simp
    from Cons.prems(4) Suc have si: "0 < notifyCalls (runTicks k ws ?cs1 ! i' ! p)" by simp
    from Cons.prems(5) Suc have ok: "sendOk ((ws ! i') p)" by simp
    from Cons.IH [OF p1 ij j1 si ok sj]
    obtain m where m: "i' < m" "m < j'" "snapshot k ((ws ! m) p) (?cs1 ! p) = Some NotLive"
      by auto
    then have "snapshot k (((w # ws) ! Suc m) p) (cs ! p) = Some NotLive"
      by (simp add: snapshot_channelId [OF id])
    with m(1,2) Suc j show ?thesis by (intro exI [of _ "Suc m"]) simp
  qed
qed

lemma runTicks_notifyCalls_le:
  "p < length cs \<Longrightarrow> t < length ws \<Longrightarrow> notifyCalls (runTicks k ws cs ! t ! p) \<le> 1"
proof (induction ws arbitrary: cs t)
  case Nil
  then show ?case by simp
next
  case (Cons w ws)
  show ?case
  proof (cases t)
    case 0
    with tick_notifyCalls_le [OF Cons.prems(1), of k w] show ?thesis by simp
  next
    case (Suc t')
    with Cons.prems Cons.IH [of "map fst (scheduleChecks k w cs)" t'] show ?thesis
      by (simp add: length_scheduleChecks)
  qed
qed


lemma tick_notifies_nth:
  "p < length cs \<Longrightarrow> reached k w cs p \<Longrightarrow> \<not> recentlyNotified (w p) (cs ! p) \<Longrightarrow>
   liveSnapshot k (w p) (cs ! p) \<Longrightarrow> truthy (notificationChannelId (cs ! p)) \<Longrightarrow>
   \<not> isLive (cs ! p) \<Longrightarrow> delivers (w p) \<Longrightarrow>
   map fst (scheduleChecks k w cs) ! p =
     (cs ! p)\<lparr>isLive := True, lastNotified := Some (clockNotify (w p))\<rparr>"
  using tick_notifies [of p cs k w] by (simp add: length_scheduleChecks)

lemma live_then_cooldown:
  assumes p: "p < length cs" and o: "\<not> isLive (cs ! p)"
    and t: "truthy (notificationChannelId (cs ! p))"
    and r: "reached k w1 cs p" and n: "\<not> recentlyNotified (w1 p) (cs ! p)"
    and l: "liveSnapshot k (w1 p) (cs ! p)" and d: "delivers (w1 p)"
    and c2: "clockCheck (w2 p) - clockNotify (w1 p) < 60 * 60 * 1000"
    and c3: "clockCheck (w3 p) - clockNotify (w1 p) < 60 * 60 * 1000"
  shows "notifyCalls (runTicks k [w1, w2, w3] cs ! 0 ! p) = 1 \<and>
         notifyCalls (runTicks k [w1, w2, w3] cs ! 1 ! p) = 0 \<and>
         notifyCalls (runTicks k [w1, w2, w3] cs ! 2 ! p) = 0"
proof -
  let ?cs1 = "map fst (scheduleChecks k w1 cs)"
  let ?cs2 = "map fst (scheduleChecks k w2 ?cs1)"
  have p1: "p < length ?cs1" using p by (simp add: length_scheduleChecks)
  have c1: "?cs1 ! p = (cs ! p)\<lparr>isLive := True, lastNotified := Some (clockNotify (w1 p))\<rparr>"
    by (rule tick_notifies_nth [OF p r n l t o d])
  have t1: "notifyCalls (scheduleChecks k w1 cs ! p) = 1"
    using tick_notifies [OF p r n l t o d] by simp
  have "recentlyNotified (w2 p) (?cs1 ! p)" using c2 by (simp add: c1 recentlyNotified_def)
  with p1 have s2: "scheduleChecks k w2 ?cs1 ! p = (?cs1 ! p, [])" by (rule tick_skip)
  have p2: "p < length ?cs2" using p1 by (simp add: length_scheduleChecks)
  have e2: "?cs2 ! p = ?cs1 ! p" using p1 s2 by (simp add: length_scheduleChecks)
  have "recentlyNotified (w3 p) (?cs2 ! p)" using c3 by (simp add: e2 c1 recentlyNotified_def)
  with p2 have s3: "scheduleChecks k w3 ?cs2 ! p = (?cs2 ! p, [])" by (rule tick_skip)
  from t1 s2 s3 show ?thesis by (simp add: notifyCalls_def)
qed

lemma live_offline_live:
  assumes p: "p < length cs" and o: "\<not> isLive (cs ! p)"
    and t: "truthy (notificationChannelId (cs ! p))"
    and r: "reached k v1 cs p" and n: "\<not> recentlyNotified (v1 p) (cs ! p)"
    and l: "liveSnapshot k (v1 p) (cs ! p)" and d: "delivers (v1 p)"
    and q2: "quietBefore v2 p" and off: "snapshot k (v2 p) (cs ! p) = Some NotLive"
    and c2: "60 * 60 * 1000 \<le> clockCheck (v2 p) - clockNotify (v1 p)"
    and q3: "quietBefore v3 p" and l3: "liveSnapshot k (v3 p) (cs ! p)" and d3: "delivers (v3 p)"
    and c3: "60 * 60 * 1000 \<le> clockCheck (v3 p) - clockNotify (v1 p)"
  shows "notifyCalls (runTicks k [v1, v2, v3] cs ! 0 ! p) = 1 \<and>
         notifyCalls (runTicks k [v1, v2, v3] cs ! 1 ! p) = 0 \<and>
         notifyCalls (runTicks k [v1, v2, v3] cs ! 2 ! p) = 1"
proof -
  let ?cs1 = "map fst (scheduleChecks k v1 cs)"
  let ?cs2 = "map fst (scheduleChecks k v2 ?cs1)"
  have p1: "p < length ?cs1" using p by (simp add: length_scheduleChecks)
  have c1: "?cs1 ! p = (cs ! p)\<lparr>isLive := True, lastNotified := Some (clockNotify (v1 p))\<rparr>"
    by (rule tick_notifies_nth [OF p r n l t o d])
  have t1: "notifyCalls (scheduleChecks k v1 cs ! p) = 1"
    using tick_notifies [OF p r n l t o d] by simp
  have n2: "\<not> recentlyNotified (v2 p) (?cs1 ! p)" using c2 by (simp add: c1 recentlyNotified_def)
  have off1: "snapshot k (v2 p) (?cs1 ! p) = Some NotLive"
    using off by (simp add: c1 snapshot_def)
  have s2: "scheduleChecks k v2 ?cs1 ! p =
      ((?cs1 ! p)\<lparr>isLive := False\<rparr>, [GetLiveSearch (channelId (?cs1 ! p)), SaveChannels])"
    using scheduleChecks_nth [OF p1, of k v2] quietBefore_reached [OF q2, of k ?cs1]
      checkChannel_offline [OF n2 off1] by (simp add: c1)
  have p2: "p < length ?cs2" using p1 by (simp add: length_scheduleChecks)
  have e2: "?cs2 ! p = (cs ! p)\<lparr>isLive := False, lastNotified := Some (clockNotify (v1 p))\<rparr>"
    using p1 s2 by (simp add: length_scheduleChecks c1)
  have n3: "\<not> recentlyNotified (v3 p) (?cs2 ! p)" using c3 by (simp add: e2 recentlyNotified_def)
  have l3': "liveSnapshot k (v3 p) (?cs2 ! p)"
    using l3 by (simp add: e2 liveSnapshot_def snapshot_def)
  have t3: "truthy (notificationChannelId (?cs2 ! p))" using t by (simp add: e2)
  have o3: "\<not> isLive (?cs2 ! p)" by (simp add: e2)
  have "notifyCalls (scheduleChecks k v3 ?cs2 ! p) = 1"
    using tick_notifies [OF p2 quietBefore_reached [OF q3] n3 l3' t3 o3 d3] by simp
  with t1 s2 show ?thesis by (simp add: notifyCalls_def isSend_def)
qed

text \<open>
  C1. For the channel at any position of the registry and any sequence of ticks:
  after a tick in which a notification for it was sent, no later tick issues another
  notification call for it unless some tick in between took place under an offline
  snapshot of the channel, so a notification fires at most once per maximal run of live
  snapshots; and no tick issues more than one notification call for it. For a channel
  that is not live, has a target and is not in its cooldown, with a working delivery
  (the destination is fetched, the embed is built and the message is sent):
  a live first tick followed by two ticks inside the cooldown window gives one
  notification call, in the first tick, and none after it, whatever the later snapshots
  are; a live first tick, an offline snapshot and a live snapshot, both one hour or more
  after the notification, give one call in the first tick, none in the second and one
  more in the third.
\<close>

theorem notification_once_per_live_run:
  "(p < length cs \<and> i < j \<and> j < length ws \<and>
      0 < notifyCalls (runTicks k ws cs ! i ! p) \<and> sendOk ((ws ! i) p) \<and>
      0 < notifyCalls (runTicks k ws cs ! j ! p) \<longrightarrow>
      (\<exists>m. i < m \<and> m < j \<and> snapshot k ((ws ! m) p) (cs ! p) = Some NotLive)) \<and>
   (p < length cs \<and> t < length ws \<longrightarrow> notifyCalls (runTicks k ws cs ! t ! p) \<le> 1) \<and>
   (p < length cs \<and> \<not> isLive (cs ! p) \<and> truthy (notificationChannelId (cs ! p)) \<and>
      reached k w1 cs p \<and> \<not> recentlyNotified (w1 p) (cs ! p) \<and>
      liveSnapshot k (w1 p) (cs ! p) \<and> delivers (w1 p) \<and>
      clockCheck (w2 p) - clockNotify (w1 p) < 60 * 60 * 1000 \<and>
      clockCheck (w3 p) - clockNotify (w1 p) < 60 * 60 * 1000 \<longrightarrow>
      notifyCalls (runTicks k [w1, w2, w3] cs ! 0 ! p) = 1 \<and>
      notifyCalls (runTicks k [w1, w2, w3] cs ! 1 ! p) = 0 \<and>
      notifyCalls (runTicks k [w1, w2, w3] cs ! 2 ! p) = 0) \<and>
   (p < length cs \<and> \<not> isLive (cs ! p) \<and> truthy (notificationChannelId (cs ! p)) \<and>
      reached k v1 cs p \<and> \<not> recentlyNotified (v1 p) (cs ! p) \<and>
      liveSnapshot k (v1 p) (cs ! p) \<and> delivers (v1 p) \<and>
      quietBefore v2 p \<and> snapshot k (v2 p) (cs ! p) = Some NotLive \<and>
      60 * 60 * 1000 \<le> clockCheck (v2 p) - clockNotify (v1 p) \<and>
      quietBefore v3 p \<and> liveSnapshot k (v3 p) (cs ! p) \<and> delivers (v3 p) \<and>
      60 * 60 * 1000 \<le> clockCheck (v3 p) - clockNotify (v1 p) \<longrightarrow>
      notifyCalls (runTicks k [v1, v2, v3] cs ! 0 ! p) = 1 \<and>
      notifyCalls (runTicks k [v1, v2, v3] cs ! 1 ! p) = 0 \<and>
      notifyCalls (runTicks k [v1, v2, v3] cs ! 2 ! p) = 1)"
  using one_notification_per_run [of p cs i j ws k] runTicks_notifyCalls_le [of p cs t ws k]
    live_then_cooldown [of p cs k w1 w2 w3] live_offline_live [of p cs k v1 v2 v3]
  by blast


theorem notification_once_per_live_run_witness:
  "((0::nat) < length [chanA] \<and> (0::nat) < 2 \<and>
    (2::nat) < length [constWorld (obLive 0), constWorld (obOffline 3600001),
                       constWorld (obLive 7200002)] \<and>
    0 < notifyCalls (runTicks (Some ''key'') [constWorld (obLive 0),
          constWorld (obOffline 3600001), constWorld (obLive 7200002)] [chanA] ! 0 ! 0) \<and>
    sendOk (([constWorld (obLive 0), constWorld (obOffline 3600001),
              constWorld (obLive 7200002)] ! 0) 0) \<and>
    0 < notifyCalls (runTicks (Some ''key'') [constWorld (obLive 0),
          constWorld (obOffline 3600001), constWorld (obLive 7200002)] [chanA] ! 2 ! 0) \<and>
    (\<exists>m. 0 < m \<and> m < 2 \<and>
       snapshot (Some ''key'') (([constWorld (obLive 0), constWorld (obOffline 3600001),
         constWorld (obLive 7200002)] ! m) 0) ([chanA] ! 0) = Some NotLive)) \<and>
   (\<not> isLive ([chanA] ! 0) \<and> truthy (notificationChannelId ([chanA] ! 0)) \<and>
    reached (Some ''key'') (constWorld (obLive 0)) [chanA] 0 \<and>
    \<not> recentlyNotified (constWorld (obLive 0) 0) ([chanA] ! 0) \<and>
    liveSnapshot (Some ''key'') (constWorld (obLive 0) 0) ([chanA] ! 0) \<and>
    delivers (constWorld (obLive 0) 0) \<and>
    clockCheck (constWorld (obLive 300000) 0) - clockNotify (constWorld (obLive 0) 0)
      < 60 * 60 * 1000 \<and>
    clockCheck (constWorld (obLive 600000) 0) - clockNotify (constWorld (obLive 0) 0)
      < 60 * 60 * 1000 \<and>
    notifyCalls (runTicks (Some ''key'') [constWorld (obLive 0), constWorld (obLive 300000),
      constWorld (obLive 600000)] [chanA] ! 0 ! 0) = 1 \<and>
    notifyCalls (runTicks (Some ''key'') [constWorld (obLive 0), constWorld (obLive 300000),
      constWorld (obLive 600000)] [chanA] ! 1 ! 0) = 0 \<and>
    notifyCalls (runTicks (Some ''key'') [constWorld (obLive 0), constWorld (obLive 300000),
      constWorld (obLive 600000)] [chanA] ! 2 ! 0) = 0) \<and>
   (quietBefore (constWorld (obOffline 3600001)) 0 \<and>
    snapshot (Some ''key'') (constWorld (obOffline 3600001) 0) ([chanA] ! 0) = Some NotLive \<and>
    60 * 60 * 1000 \<le> clockCheck (constWorld (obOffline 3600001) 0)
      - clockNotify (constWorld (obLive 0) 0) \<and>
    quietBefore (constWorld (obLive 7200002)) 0 \<and>
    liveSnapshot (Some ''key'') (constWorld (obLive 7200002) 0) ([chanA] ! 0) \<and>
    delivers (constWorld (obLive 7200002) 0) \<and>
    60 * 60 * 1000 \<le> clockCheck (constWorld (obLive 7200002) 0)
      - clockNotify (constWorld (obLive 0) 0) \<and>
    notifyCalls (runTicks (Some ''key'') [constWorld (obLive 0), constWorld (obOffline 3600001),
      constWorld (obLive 7200002)] [chanA] ! 0 ! 0) = 1 \<and>
    notifyCalls (runTicks (Some ''key'') [constWorld (obLive 0), constWorld (obOffline 3600001),
      constWorld (obLive 7200002)] [chanA] ! 1 ! 0) = 0 \<and>
    notifyCalls (runTicks (Some ''key'') [constWorld (obLive 0), constWorld (obOffline 3600001),
      constWorld (obLive 7200002)] [chanA] ! 2 ! 0) = 1)"
proof -
  let ?k = "Some ''key''"
  let ?v1 = "constWorld (obLive 0)"
  let ?v2 = "constWorld (obOffline 3600001)"
  let ?v3 = "constWorld (obLive 7200002)"
  let ?w2 = "constWorld (obLive 300000)"
  let ?w3 = "constWorld (obLive 600000)"
  have fresh: "\<not> isLive ([chanA] ! 0)" "truthy (notificationChannelId ([chanA] ! 0))"
    by (simp_all add: chanA_def truthy_def)
  have r1: "reached ?k ?v1 [chanA] 0" by (simp add: reached_def)
  have n1: "\<not> recentlyNotified (?v1 0) ([chanA] ! 0)"
    by (simp add: recentlyNotified_def chanA_def)
  have l1: "liveSnapshot ?k (?v1 0) ([chanA] ! 0)"
    by (simp add: liveSnapshot_def snapshot_def checkYouTubeLiveStatus_def truthy_def
        constWorld_def obLive_def)
  have d1: "delivers (?v1 0)" by (simp add: delivers_def constWorld_def obLive_def)
  have cw: "clockCheck (?w2 0) - clockNotify (?v1 0) < 60 * 60 * 1000"
      "clockCheck (?w3 0) - clockNotify (?v1 0) < 60 * 60 * 1000"
    by (simp_all add: constWorld_def obLive_def)
  have q: "quietBefore ?v2 0" "quietBefore ?v3 0" by (simp_all add: quietBefore_def)
  have off: "snapshot ?k (?v2 0) ([chanA] ! 0) = Some NotLive"
    by (simp add: snapshot_def checkYouTubeLiveStatus_def truthy_def constWorld_def obOffline_def)
  have l3: "liveSnapshot ?k (?v3 0) ([chanA] ! 0)"
    by (simp add: liveSnapshot_def snapshot_def checkYouTubeLiveStatus_def truthy_def
        constWorld_def obLive_def)
  have d3: "delivers (?v3 0)" by (simp add: delivers_def constWorld_def obLive_def)
  have cv: "60 * 60 * 1000 \<le> clockCheck (?v2 0) - clockNotify (?v1 0)"
      "60 * 60 * 1000 \<le> clockCheck (?v3 0) - clockNotify (?v1 0)"
    by (simp_all add: constWorld_def obLive_def obOffline_def)
  have ok: "sendOk (([?v1, ?v2, ?v3] ! 0) 0)" by (simp add: constWorld_def obLive_def)
  note T = notification_once_per_live_run
    [of 0 "[chanA]" 0 2 "[?v1, ?v2, ?v3]" ?k 0 ?v1 ?w2 ?w3 ?v1 ?v2 ?v3]
  from T fresh r1 n1 l1 d1 cw
  have b: "notifyCalls (runTicks ?k [?v1, ?w2, ?w3] [chanA] ! 0 ! 0) = 1 \<and>
           notifyCalls (runTicks ?k [?v1, ?w2, ?w3] [chanA] ! 1 ! 0) = 0 \<and>
           notifyCalls (runTicks ?k [?v1, ?w2, ?w3] [chanA] ! 2 ! 0) = 0"
    by simp
  from T fresh r1 n1 l1 d1 q off l3 d3 cv
  have c: "notifyCalls (runTicks ?k [?v1, ?v2, ?v3] [chanA] ! 0 ! 0) = 1 \<and>
           notifyCalls (runTicks ?k [?v1, ?v2, ?v3] [chanA] ! 1 ! 0) = 0 \<and>
           notifyCalls (runTicks ?k [?v1, ?v2, ?v3] [chanA] ! 2 ! 0) = 1"
    by simp
  from T c ok
  have a: "\<exists>m. 0 < m \<and> m < 2 \<and> snapshot ?k (([?v1, ?v2, ?v3] ! m) 0) ([chanA] ! 0) = Some NotLive"
    by simp
  from a b c fresh r1 n1 l1 d1 cw q off l3 d3 cv ok show ?thesis by simp
qed

section \<open>Properties of the resolver\<close>

lemma stripPrefix_append: "stripPrefix l (l @ s) = Some s"
  by (induction l) simp_all

lemma regexSearch_skip:
  "CHR ''y'' \<notin> set pre \<Longrightarrow>
   regexSearch (CHR ''y'' # l) (pre @ s) = regexSearch (CHR ''y'' # l) s"
  by (induction pre) auto

lemma regexSearch_hit:
  "takeWhile idChar s \<noteq> [] \<Longrightarrow> regexSearch l (l @ s) = Some (takeWhile idChar s)"
proof -
  assume t: "takeWhile idChar s \<noteq> []"
  then have "l @ s \<noteq> []" by auto
  then obtain x xs where e: "l @ s = x # xs" by (cases "l @ s") auto
  have "stripPrefix l (x # xs) = Some s" using stripPrefix_append [of l s] e by simp
  with t e show ?thesis by simp
qed

lemma idChar_question: "idChar c \<Longrightarrow> c \<noteq> CHR ''?''"
  by (auto simp add: idChar_def)

lemma takeWhile_run:
  "\<forall>c\<in>set v. idChar c \<Longrightarrow> rest = [] \<or> \<not> idChar (hd rest) \<Longrightarrow>
   takeWhile idChar (v @ takeWhile (\<lambda>c. c \<noteq> CHR ''?'') rest) = v"
  by (cases rest) (auto simp add: takeWhile_append2)

lemma takeWhile_clean:
  "CHR ''?'' \<notin> set pre \<Longrightarrow> CHR ''?'' \<notin> set lit \<Longrightarrow> \<forall>c\<in>set v. idChar c \<Longrightarrow>
   takeWhile (\<lambda>c. c \<noteq> CHR ''?'') (pre @ lit @ v @ rest) =
     pre @ lit @ v @ takeWhile (\<lambda>c. c \<noteq> CHR ''?'') rest"
proof -
  assume a: "CHR ''?'' \<notin> set pre" "CHR ''?'' \<notin> set lit" and b: "\<forall>c\<in>set v. idChar c"
  from b have "\<forall>c\<in>set v. c \<noteq> CHR ''?''" using idChar_question by blast
  moreover from a have "\<forall>c\<in>set pre. c \<noteq> CHR ''?''" "\<forall>c\<in>set lit. c \<noteq> CHR ''?''" by auto
  ultimately show ?thesis by (simp add: takeWhile_append2)
qed

lemma regexSearch_found:
  "CHR ''y'' \<notin> set pre \<Longrightarrow> takeWhile idChar s \<noteq> [] \<Longrightarrow>
   regexSearch (CHR ''y'' # l) (pre @ (CHR ''y'' # l) @ s) = Some (takeWhile idChar s)"
  using regexSearch_skip [of pre l "(CHR ''y'' # l) @ s"] regexSearch_hit [of s "CHR ''y'' # l"]
  by simp

lemma direct_id_form:
  assumes "CHR ''y'' \<notin> set pre" and "CHR ''?'' \<notin> set pre" and "v \<noteq> []"
    and "\<forall>c\<in>set v. idChar c" and "rest = [] \<or> \<not> idChar (hd rest)"
  shows "getYoutubeIdentifier (pre @ ''youtube.com/channel/'' @ v @ rest) = Some (IdForm v)"
proof -
  let ?rest = "takeWhile (\<lambda>c. c \<noteq> CHR ''?'') rest"
  have "takeWhile idChar (v @ ?rest) = v" by (rule takeWhile_run [OF assms(4,5)])
  with assms(1,3)
  have "regexSearch ''youtube.com/channel/'' (pre @ ''youtube.com/channel/'' @ v @ ?rest) = Some v"
    using regexSearch_found [of pre "v @ ?rest" "''outube.com/channel/''"] by simp
  then show ?thesis
    using takeWhile_clean [of pre "''youtube.com/channel/''" v rest] assms(2,4)
    by (simp add: getYoutubeIdentifier_def)
qed

lemma searchByUsername_none:
  "threw (searchChannel a v) \<or> noItems (searchChannel a v) \<Longrightarrow>
   searchByUsername a v calls = (None, calls @ [GetChannelSearch v])"
  by (auto simp add: searchByUsername_def threw_def noItems_def
      split: response.splits body.splits option.splits list.splits)

lemma searchByUsername_calls: "snd (searchByUsername a v calls) = calls @ [GetChannelSearch v]"
  by (simp add: searchByUsername_def)

lemma resolve_handle_threw:
  "threw (forHandle a h) \<Longrightarrow>
   resolveToChannelId a (Some (HandleForm h)) = (None, [GetChannelForHandle h])"
  by (auto simp add: resolveToChannelId_def threw_def split: response.splits body.splits)

lemma resolve_handle_noItems:
  "noItems (forHandle a h) \<Longrightarrow>
   resolveToChannelId a (Some (HandleForm h)) = searchByUsername a h [GetChannelForHandle h]"
  by (auto simp add: resolveToChannelId_def noItems_def
      split: response.splits body.splits option.splits list.splits)

lemma resolve_handle_calls:
  "snd (resolveToChannelId a (Some (HandleForm h))) = [GetChannelForHandle h] \<or>
   snd (resolveToChannelId a (Some (HandleForm h))) = [GetChannelForHandle h, GetChannelSearch h]"
  by (auto simp add: resolveToChannelId_def searchByUsername_calls
      split: response.splits body.splits option.splits list.splits)

text \<open>
  C5. A URL of the direct-id form (any prefix without the letter y and without question
  mark, then \<^verbatim>\<open>youtube.com/channel/\<close>, then a nonempty run of id characters that ends at
  the end of the text or at another character) is classified as that id, and an input
  classified as an id resolves to the id itself with no call at all. For a handle the
  calls are the handle lookup alone, or the handle lookup followed by one search by
  name: a nonempty answer of the handle lookup gives its first id without a search; an
  answer without items makes the resolver continue with the search by name; a handle
  lookup that throws gives null. When the handle lookup has no item and the search
  throws or has no item, and when the search for a custom name throws or has no item,
  the result is null, the unresolvable identifier.
\<close>

theorem resolver_contract:
  "(CHR ''y'' \<notin> set pre \<and> CHR ''?'' \<notin> set pre \<and> v \<noteq> [] \<and> (\<forall>c\<in>set v. idChar c) \<and>
      (rest = [] \<or> \<not> idChar (hd rest)) \<longrightarrow>
      getYoutubeIdentifier (pre @ ''youtube.com/channel/'' @ v @ rest) = Some (IdForm v)) \<and>
   (getYoutubeIdentifier url = Some (IdForm v) \<longrightarrow>
      resolveToChannelId a (getYoutubeIdentifier url) = (Some v, [])) \<and>
   (snd (resolveToChannelId a (Some (HandleForm h))) = [GetChannelForHandle h] \<or>
    snd (resolveToChannelId a (Some (HandleForm h))) =
      [GetChannelForHandle h, GetChannelSearch h]) \<and>
   (forHandle a h = Response True (Json (Some (x # xs))) \<longrightarrow>
      resolveToChannelId a (Some (HandleForm h)) = (Some x, [GetChannelForHandle h])) \<and>
   (noItems (forHandle a h) \<longrightarrow>
      resolveToChannelId a (Some (HandleForm h)) = searchByUsername a h [GetChannelForHandle h] \<and>
      snd (resolveToChannelId a (Some (HandleForm h))) =
        [GetChannelForHandle h, GetChannelSearch h]) \<and>
   (threw (forHandle a h) \<longrightarrow>
      resolveToChannelId a (Some (HandleForm h)) = (None, [GetChannelForHandle h])) \<and>
   (noItems (forHandle a h) \<and> (threw (searchChannel a h) \<or> noItems (searchChannel a h)) \<longrightarrow>
      fst (resolveToChannelId a (Some (HandleForm h))) = None) \<and>
   (threw (searchChannel a n) \<or> noItems (searchChannel a n) \<longrightarrow>
      resolveToChannelId a (Some (CustomForm n)) = (None, [GetChannelSearch n]))"
proof -
  have 1: "CHR ''y'' \<notin> set pre \<and> CHR ''?'' \<notin> set pre \<and> v \<noteq> [] \<and> (\<forall>c\<in>set v. idChar c) \<and>
      (rest = [] \<or> \<not> idChar (hd rest)) \<longrightarrow>
      getYoutubeIdentifier (pre @ ''youtube.com/channel/'' @ v @ rest) = Some (IdForm v)"
    using direct_id_form [of pre v rest] by blast
  have 2: "getYoutubeIdentifier url = Some (IdForm v) \<longrightarrow>
      resolveToChannelId a (getYoutubeIdentifier url) = (Some v, [])"
    by (simp add: resolveToChannelId_def)
  have 4: "forHandle a h = Response True (Json (Some (x # xs))) \<longrightarrow>
      resolveToChannelId a (Some (HandleForm h)) = (Some x, [GetChannelForHandle h])"
    by (simp add: resolveToChannelId_def)
  have 5: "noItems (forHandle a h) \<longrightarrow>
      resolveToChannelId a (Some (HandleForm h)) = searchByUsername a h [GetChannelForHandle h] \<and>
      snd (resolveToChannelId a (Some (HandleForm h))) =
        [GetChannelForHandle h, GetChannelSearch h]"
    by (simp add: resolve_handle_noItems searchByUsername_calls)
  have 7: "noItems (forHandle a h) \<and> (threw (searchChannel a h) \<or> noItems (searchChannel a h)) \<longrightarrow>
      fst (resolveToChannelId a (Some (HandleForm h))) = None"
    by (auto simp add: resolve_handle_noItems searchByUsername_none)
  have 8: "threw (searchChannel a n) \<or> noItems (searchChannel a n) \<longrightarrow>
      resolveToChannelId a (Some (CustomForm n)) = (None, [GetChannelSearch n])"
    using searchByUsername_none [of a n "[]"] by (auto simp add: resolveToChannelId_def)
  from 1 2 resolve_handle_calls [of a h] 4 5 resolve_handle_threw [of a h] 7 8
  show ?thesis by blast
qed


theorem resolver_contract_witness:
  "getYoutubeIdentifier ''https://www.youtube.com/channel/UC123'' = Some (IdForm ''UC123'') \<and>
   resolveToChannelId apiDown (getYoutubeIdentifier ''https://www.youtube.com/channel/UC123'')
     = (Some ''UC123'', []) \<and>
   getYoutubeIdentifier ''https://www.youtube.com/@someHandle'' = Some (HandleForm ''someHandle'') \<and>
   forHandle apiHandle ''someHandle'' = Response True (Json (Some [''UChandle''])) \<and>
   resolveToChannelId apiHandle (Some (HandleForm ''someHandle'')) =
     (Some ''UChandle'', [GetChannelForHandle ''someHandle'']) \<and>
   noItems (forHandle apiEmptyHandle ''someHandle'') \<and>
   resolveToChannelId apiEmptyHandle (Some (HandleForm ''someHandle'')) =
     (Some ''UCsearch'', [GetChannelForHandle ''someHandle'', GetChannelSearch ''someHandle'']) \<and>
   threw (forHandle apiDown ''someHandle'') \<and>
   resolveToChannelId apiDown (Some (HandleForm ''someHandle'')) =
     (None, [GetChannelForHandle ''someHandle'']) \<and>
   noItems (forHandle apiNothing ''someHandle'') \<and> noItems (searchChannel apiNothing ''someHandle'') \<and>
   fst (resolveToChannelId apiNothing (Some (HandleForm ''someHandle''))) = None \<and>
   noItems (searchChannel apiNothing ''someName'') \<and>
   resolveToChannelId apiNothing (Some (CustomForm ''someName'')) =
     (None, [GetChannelSearch ''someName''])"
proof -
  have p: "CHR ''y'' \<notin> set ''https://www.'' \<and> CHR ''?'' \<notin> set ''https://www.'' \<and>
      ''UC123'' \<noteq> [] \<and> (\<forall>c\<in>set ''UC123''. idChar c) \<and> ([] = [] \<or> \<not> idChar (hd []))"
    by (simp add: idChar_def)
  from resolver_contract [of "''https://www.''" "''UC123''" "[]"
      "''https://www.youtube.com/channel/UC123''" apiDown "''someHandle''"] p
  have i: "getYoutubeIdentifier ''https://www.youtube.com/channel/UC123'' = Some (IdForm ''UC123'')"
    by simp
  have t: "threw (forHandle apiDown ''someHandle'')" by (simp add: threw_def apiDown_def)
  from resolver_contract [of "''https://www.''" "''UC123''" "[]"
      "''https://www.youtube.com/channel/UC123''" apiDown "''someHandle''"] i t
  have d: "resolveToChannelId apiDown (getYoutubeIdentifier ''https://www.youtube.com/channel/UC123'')
      = (Some ''UC123'', [])"
    "resolveToChannelId apiDown (Some (HandleForm ''someHandle'')) =
      (None, [GetChannelForHandle ''someHandle''])"
    by simp_all
  have hh: "forHandle apiHandle ''someHandle'' = Response True (Json (Some (''UChandle'' # [])))"
    by (simp add: apiHandle_def)
  from resolver_contract [of _ _ _ _ apiHandle "''someHandle''" "''UChandle''" "[]"] hh
  have h: "resolveToChannelId apiHandle (Some (HandleForm ''someHandle'')) =
      (Some ''UChandle'', [GetChannelForHandle ''someHandle''])"
    by blast
  have ne: "noItems (forHandle apiEmptyHandle ''someHandle'')"
    by (simp add: noItems_def apiEmptyHandle_def)
  from resolver_contract [of _ _ _ _ apiEmptyHandle "''someHandle''"] ne
  have "resolveToChannelId apiEmptyHandle (Some (HandleForm ''someHandle'')) =
      searchByUsername apiEmptyHandle ''someHandle'' [GetChannelForHandle ''someHandle'']"
    by blast
  then have e: "resolveToChannelId apiEmptyHandle (Some (HandleForm ''someHandle'')) =
      (Some ''UCsearch'', [GetChannelForHandle ''someHandle'', GetChannelSearch ''someHandle''])"
    by (simp add: searchByUsername_def apiEmptyHandle_def orElse_def truthy_def)
  have nn: "noItems (forHandle apiNothing ''someHandle'')"
      "noItems (searchChannel apiNothing ''someHandle'')"
      "noItems (searchChannel apiNothing ''someName'')"
    by (simp_all add: noItems_def apiNothing_def)
  from resolver_contract [of _ _ _ _ apiNothing "''someHandle''" _ _ "''someName''"] nn
  have n: "fst (resolveToChannelId apiNothing (Some (HandleForm ''someHandle''))) = None"
    "resolveToChannelId apiNothing (Some (CustomForm ''someName'')) =
      (None, [GetChannelSearch ''someName''])"
    by blast+
  have g: "getYoutubeIdentifier ''https://www.youtube.com/@someHandle'' =
      Some (HandleForm ''someHandle'')"
    by (simp add: getYoutubeIdentifier_def idChar_def)
  from i d g hh h ne e t nn n show ?thesis by simp
qed

section \<open>Properties of the registry commands\<close>

lemma resolve_None: "resolveToChannelId a None = (None, [])"
  by (simp add: resolveToChannelId_def)

lemma addchannel_Added:
  "addchannel a now m cs = (Added name, cs', calls) \<Longrightarrow>
   \<exists>cid. resolvedKey a m = Some cid \<and> cid \<noteq> [] \<and> cid \<notin> channelId ` set cs \<and>
         cs' = cs @ [newChannel cid name m now]"
  by (auto simp add: addchannel_def addchannelBegin_def addchannelFinish_def resolvedKey_def
      queryKey_def newChannel_def find_None_iff
      split: if_splits list.splits option.splits prod.splits sum.splits response.splits
        body.splits)

lemma addchannel_duplicate:
  assumes adm: "isAdministrator m" and key: "resolvedKey a m = Some cid"
    and ne: "cid \<noteq> []" and mem: "cid \<in> channelId ` set cs"
  shows "\<exists>t calls. addchannel a now m cs = (AlreadyMonitored t, cs, calls)"
proof -
  from key obtain u us where args: "args m = u # us"
    by (cases "args m") (auto simp add: resolvedKey_def)
  with key have r: "fst (resolveToChannelId a (getYoutubeIdentifier u)) = Some cid"
    by (simp add: resolvedKey_def queryKey_def)
  then obtain ident where i: "getYoutubeIdentifier u = Some ident"
    by (cases "getYoutubeIdentifier u") (auto simp add: resolve_None)
  from r i obtain calls where c: "resolveToChannelId a (Some ident) = (Some cid, calls)"
    by (cases "resolveToChannelId a (Some ident)") auto
  from mem have "find (\<lambda>c. channelId c = cid) cs \<noteq> None"
    by (auto simp add: find_None_iff)
  then obtain e where "find (\<lambda>c. channelId c = cid) cs = Some e" by auto
  with adm args i c ne show ?thesis by (simp add: addchannel_def addchannelBegin_def)
qed

lemma addchannel_registry:
  "fst (snd (addchannel a now m cs)) = cs \<or>
   (\<exists>name. fst (addchannel a now m cs) = Added name)"
  by (auto simp add: addchannel_def addchannelBegin_def addchannelFinish_def
      split: if_splits list.splits option.splits prod.splits sum.splits response.splits
        body.splits)

lemma addchannel_distinct:
  "distinct (map channelId cs) \<Longrightarrow> distinct (map channelId (fst (snd (addchannel a now m cs))))"
proof -
  assume d: "distinct (map channelId cs)"
  obtain r cs' calls where e: "addchannel a now m cs = (r, cs', calls)"
    by (cases "addchannel a now m cs") auto
  from addchannel_registry [of a now m cs] e
  consider "cs' = cs" | name where "r = Added name" by auto
  then show ?thesis
  proof cases
    case 1
    with d e show ?thesis by simp
  next
    case 2
    with e addchannel_Added [of a now m cs name cs' calls]
    obtain cid where "cid \<notin> channelId ` set cs" "cs' = cs @ [newChannel cid name m now]"
      by auto
    with d e show ?thesis by (simp add: newChannel_def)
  qed
qed

lemma count_added:
  "cid \<notin> channelId ` set cs \<Longrightarrow> channelId c = cid \<Longrightarrow>
   length (filter (\<lambda>d. channelId d = cid) (cs @ [c])) = 1"
proof -
  assume "cid \<notin> channelId ` set cs" and c: "channelId c = cid"
  then have "filter (\<lambda>d. channelId d = cid) cs = []"
    by (force simp add: filter_empty_conv image_iff)
  with c show ?thesis by simp
qed

lemma filter_shrinks: "(length (filter P xs) < length xs) = (\<exists>x\<in>set xs. \<not> P x)"
proof
  assume "length (filter P xs) < length xs"
  then have "filter P xs \<noteq> xs" by auto
  then show "\<exists>x\<in>set xs. \<not> P x" by (auto simp add: filter_id_conv)
next
  assume "\<exists>x\<in>set xs. \<not> P x"
  then show "length (filter P xs) < length xs" by (auto intro: length_filter_less)
qed

lemma filter_keeps: "\<not> length (filter P xs) < length xs \<Longrightarrow> filter P xs = xs"
  by (simp add: filter_shrinks filter_id_conv)

lemma removeById_cases:
  "removeById a q cs = (cs1, removed1, calls) \<Longrightarrow>
   (\<not> removed1 \<and> cs1 = cs) \<or>
   (removed1 \<and>
    (\<exists>ident cid. getYoutubeIdentifier q = Some ident \<and>
       fst (resolveToChannelId a (Some ident)) = Some cid \<and> cid \<noteq> [] \<and>
       cid \<in> channelId ` set cs \<and> cs1 = filter (\<lambda>c. channelId c \<noteq> cid) cs))"
  by (auto simp add: removeById_def filter_keeps filter_shrinks
      split: option.splits prod.splits if_splits)

lemma removechannel_eq:
  "isAdministrator m \<Longrightarrow> args m \<noteq> [] \<Longrightarrow>
   fst (snd (removechannel lc a m cs)) =
     (if fst (snd (removeById a (join (args m)) cs)) then fst (removeById a (join (args m)) cs)
      else filter (\<lambda>c. \<not> nameMatches lc (join (args m)) c) cs) \<and>
   (fst (removechannel lc a m cs) = Removed) = (length (fst (snd (removechannel lc a m cs))) < length cs) \<and>
   (fst (removechannel lc a m cs) = Removed \<or> fst (removechannel lc a m cs) = NotInList)"
proof -
  assume adm: "isAdministrator m" and ar: "args m \<noteq> []"
  obtain cs1 removed1 calls where e: "removeById a (join (args m)) cs = (cs1, removed1, calls)"
    by (cases "removeById a (join (args m)) cs") auto
  from ar have l: "\<not> length (args m) < 1" by (cases "args m") auto
  show ?thesis
  proof (cases removed1)
    case True
    with removeById_cases [OF e] obtain cid where
      "cid \<in> channelId ` set cs" "cs1 = filter (\<lambda>c. channelId c \<noteq> cid) cs" by auto
    then have "length cs1 < length cs" by (auto simp add: filter_shrinks)
    with adm l e True show ?thesis by (simp add: removechannel_def Let_def)
  next
    case False
    with removeById_cases [OF e] have "cs1 = cs" by auto
    with adm l e False show ?thesis by (simp add: removechannel_def Let_def)
  qed
qed

lemma startsWith_iff: "startsWith s q = (\<exists>v. s = q @ v)"
  by (induction s q rule: startsWith.induct) auto

lemma includesStr_iff: "includesStr s q = (\<exists>u v. s = u @ q @ v)"
proof (induction s)
  case Nil
  then show ?case by simp
next
  case (Cons x xs)
  show ?case
  proof
    assume "includesStr (x # xs) q"
    then consider "startsWith (x # xs) q" | "includesStr xs q" by auto
    then show "\<exists>u v. x # xs = u @ q @ v"
    proof cases
      case 1
      then obtain v where "x # xs = q @ v" by (auto simp add: startsWith_iff)
      then have "x # xs = [] @ q @ v" by simp
      then show ?thesis by blast
    next
      case 2
      with Cons.IH obtain u v where "xs = u @ q @ v" by auto
      then have "x # xs = (x # u) @ q @ v" by simp
      then show ?thesis by blast
    qed
  next
    assume "\<exists>u v. x # xs = u @ q @ v"
    then obtain u v where e: "x # xs = u @ q @ v" by auto
    show "includesStr (x # xs) q"
    proof (cases u)
      case Nil
      with e have "startsWith (x # xs) q" by (auto simp add: startsWith_iff)
      then show ?thesis by simp
    next
      case (Cons y u')
      with e have "xs = u' @ q @ v" by simp
      with Cons.IH have "includesStr xs q" by blast
      then show ?thesis by simp
    qed
  qed
qed


lemma removeById_removed:
  "fst (snd (removeById a q cs)) =
   (\<exists>cid. queryKey a q = Some cid \<and> cid \<noteq> [] \<and> cid \<in> channelId ` set cs)"
  by (auto simp add: removeById_def queryKey_def resolve_None filter_shrinks
      split: option.splits prod.splits)

lemma removeById_filter:
  "queryKey a q = Some cid \<Longrightarrow> cid \<noteq> [] \<Longrightarrow>
   fst (removeById a q cs) = filter (\<lambda>c. channelId c \<noteq> cid) cs"
  by (auto simp add: removeById_def queryKey_def resolve_None split: option.splits prod.splits)

lemma removechannel_filter: "\<exists>P. fst (snd (removechannel lc a m cs)) = filter P cs"
proof (cases "isAdministrator m \<and> args m \<noteq> []")
  case False
  then have "fst (snd (removechannel lc a m cs)) = filter (\<lambda>_. True) cs"
    by (auto simp add: removechannel_def)
  then show ?thesis by blast
next
  case True
  then have e: "fst (snd (removechannel lc a m cs)) =
     (if fst (snd (removeById a (join (args m)) cs)) then fst (removeById a (join (args m)) cs)
      else filter (\<lambda>c. \<not> nameMatches lc (join (args m)) c) cs)"
    using removechannel_eq [of m lc a cs] by simp
  show ?thesis
  proof (cases "fst (snd (removeById a (join (args m)) cs))")
    case True
    then obtain cid where "queryKey a (join (args m)) = Some cid" "cid \<noteq> []"
      by (auto simp add: removeById_removed)
    from removeById_filter [OF this] e True show ?thesis by auto
  next
    case False
    with e show ?thesis by auto
  qed
qed

lemma removechannel_distinct:
  "distinct (map channelId cs) \<Longrightarrow> distinct (map channelId (fst (snd (removechannel lc a m cs))))"
  using removechannel_filter [of lc a m cs] by (auto simp add: distinct_map_filter)

lemma tick_keys: "map channelId (map fst (scheduleChecks k w cs)) = map channelId cs"
  by (rule nth_equalityI) (simp_all add: length_scheduleChecks tick_channelId)

text \<open>
  Run one after the other, the commands keep the keys apart. When \<^verbatim>\<open>addchannel\<close>, run
  without another handler in between, adds a channel, the registry afterwards is the
  old one followed by the new record, it holds exactly one record with the key the
  command resolved, and every later such \<^verbatim>\<open>addchannel\<close> of an administrator that resolves
  to the same key answers that the channel is already monitored and leaves the registry
  as it is. Keys that are pairwise different stay so under such an \<^verbatim>\<open>addchannel\<close>,
  under \<^verbatim>\<open>removechannel\<close> and under a tick.
\<close>

lemma adds_in_turn_keep_keys_apart:
  "(addchannel a now m cs = (Added name, cs', calls) \<longrightarrow>
      (\<exists>cid. resolvedKey a m = Some cid \<and> cs' = cs @ [newChannel cid name m now] \<and>
         length (filter (\<lambda>c. channelId c = cid) cs') = 1 \<and>
         (\<forall>a2 now2 m2. isAdministrator m2 \<and> resolvedKey a2 m2 = Some cid \<longrightarrow>
            (\<exists>t calls2. addchannel a2 now2 m2 cs' = (AlreadyMonitored t, cs', calls2))))) \<and>
   (isAdministrator m \<and> resolvedKey a m = Some cid \<and> cid \<noteq> [] \<and> cid \<in> channelId ` set cs \<longrightarrow>
      (\<exists>t calls. addchannel a now m cs = (AlreadyMonitored t, cs, calls))) \<and>
   (distinct (map channelId cs) \<longrightarrow>
      distinct (map channelId (fst (snd (addchannel a now m cs)))) \<and>
      distinct (map channelId (fst (snd (removechannel lc a m cs)))) \<and>
      distinct (map channelId (map fst (scheduleChecks k w cs))))"
proof -
  have 1: "addchannel a now m cs = (Added name, cs', calls) \<longrightarrow>
      (\<exists>cid. resolvedKey a m = Some cid \<and> cs' = cs @ [newChannel cid name m now] \<and>
         length (filter (\<lambda>c. channelId c = cid) cs') = 1 \<and>
         (\<forall>a2 now2 m2. isAdministrator m2 \<and> resolvedKey a2 m2 = Some cid \<longrightarrow>
            (\<exists>t calls2. addchannel a2 now2 m2 cs' = (AlreadyMonitored t, cs', calls2))))"
  proof
    assume "addchannel a now m cs = (Added name, cs', calls)"
    from addchannel_Added [OF this] obtain cid where
      c: "resolvedKey a m = Some cid" "cid \<noteq> []" "cid \<notin> channelId ` set cs"
        "cs' = cs @ [newChannel cid name m now]" by auto
    have n: "channelId (newChannel cid name m now) = cid" by (simp add: newChannel_def)
    from count_added [OF c(3) n] c(4)
    have one: "length (filter (\<lambda>c. channelId c = cid) cs') = 1" by simp
    from c(4) n have mem: "cid \<in> channelId ` set cs'" by force
    have "\<forall>a2 now2 m2. isAdministrator m2 \<and> resolvedKey a2 m2 = Some cid \<longrightarrow>
            (\<exists>t calls2. addchannel a2 now2 m2 cs' = (AlreadyMonitored t, cs', calls2))"
      using addchannel_duplicate [OF _ _ c(2) mem] by blast
    with c(1,4) one show "\<exists>cid. resolvedKey a m = Some cid \<and> cs' = cs @ [newChannel cid name m now] \<and>
         length (filter (\<lambda>c. channelId c = cid) cs') = 1 \<and>
         (\<forall>a2 now2 m2. isAdministrator m2 \<and> resolvedKey a2 m2 = Some cid \<longrightarrow>
            (\<exists>t calls2. addchannel a2 now2 m2 cs' = (AlreadyMonitored t, cs', calls2)))"
      by blast
  qed
  have 2: "isAdministrator m \<and> resolvedKey a m = Some cid \<and> cid \<noteq> [] \<and> cid \<in> channelId ` set cs \<longrightarrow>
      (\<exists>t calls. addchannel a now m cs = (AlreadyMonitored t, cs, calls))"
    using addchannel_duplicate [of m a cid cs now] by blast
  have 3: "distinct (map channelId cs) \<longrightarrow>
      distinct (map channelId (fst (snd (addchannel a now m cs)))) \<and>
      distinct (map channelId (fst (snd (removechannel lc a m cs)))) \<and>
      distinct (map channelId (map fst (scheduleChecks k w cs)))"
    using addchannel_distinct [of cs a now m] removechannel_distinct [of cs lc a m]
    by (simp only: tick_keys) blast
  from 1 2 3 show ?thesis by (intro conjI)
qed

text \<open>
  C6. The key is not unique at all times. The registry holds the channel \<open>chanA\<close>; two
  administrators send \<^verbatim>\<open>!addchannel https://www.youtube.com/channel/UC123\<close>, and the second
  message is handled while the first handler waits for the verification request of
  line 627. Both handlers pass the test of line 621, both are told that the channel was
  added, and the registry ends with two records of the key \<open>UC123\<close>.
\<close>

theorem overlapping_adds_push_one_key_twice:
  "addchannelOverlapped apiHandle 42 (msgAdd ''https://www.youtube.com/channel/UC123'')
     43 (msgAdd ''https://www.youtube.com/channel/UC123'') [chanA] =
     (Added ''Gamma'', Added ''Gamma'',
      [chanA,
       newChannel ''UC123'' ''Gamma'' (msgAdd ''https://www.youtube.com/channel/UC123'') 42,
       newChannel ''UC123'' ''Gamma'' (msgAdd ''https://www.youtube.com/channel/UC123'') 43]) \<and>
   map channelId
     [chanA,
      newChannel ''UC123'' ''Gamma'' (msgAdd ''https://www.youtube.com/channel/UC123'') 42,
      newChannel ''UC123'' ''Gamma'' (msgAdd ''https://www.youtube.com/channel/UC123'') 43] =
     [''UCaaa'', ''UC123'', ''UC123'']"
proof -
  have i: "getYoutubeIdentifier ''https://www.youtube.com/channel/UC123'' = Some (IdForm ''UC123'')"
    by (simp add: getYoutubeIdentifier_def idChar_def)
  have b: "addchannelBegin apiHandle (msgAdd ''https://www.youtube.com/channel/UC123'') [chanA] =
      Inr (''UC123'', [])"
    by (simp add: addchannelBegin_def msgAdd_def i resolveToChannelId_def chanA_def)
  have f1: "addchannelFinish apiHandle 42 (msgAdd ''https://www.youtube.com/channel/UC123'')
      ''UC123'' [] [chanA] =
      (Added ''Gamma'',
       [chanA, newChannel ''UC123'' ''Gamma'' (msgAdd ''https://www.youtube.com/channel/UC123'') 42],
       [GetChannelDetails ''UC123'', SaveChannels])"
    by (simp add: addchannelFinish_def apiHandle_def newChannel_def)
  have f2: "addchannelFinish apiHandle 43 (msgAdd ''https://www.youtube.com/channel/UC123'')
      ''UC123'' []
      [chanA, newChannel ''UC123'' ''Gamma'' (msgAdd ''https://www.youtube.com/channel/UC123'') 42] =
      (Added ''Gamma'',
       [chanA, newChannel ''UC123'' ''Gamma'' (msgAdd ''https://www.youtube.com/channel/UC123'') 42,
        newChannel ''UC123'' ''Gamma'' (msgAdd ''https://www.youtube.com/channel/UC123'') 43],
       [GetChannelDetails ''UC123'', SaveChannels])"
    by (simp add: addchannelFinish_def apiHandle_def newChannel_def)
  have ids: "map channelId
      [chanA, newChannel ''UC123'' ''Gamma'' (msgAdd ''https://www.youtube.com/channel/UC123'') 42,
       newChannel ''UC123'' ''Gamma'' (msgAdd ''https://www.youtube.com/channel/UC123'') 43] =
      [''UCaaa'', ''UC123'', ''UC123'']"
    by (simp add: newChannel_def chanA_def)
  have "addchannelOverlapped apiHandle 42 (msgAdd ''https://www.youtube.com/channel/UC123'')
      43 (msgAdd ''https://www.youtube.com/channel/UC123'') [chanA] =
      (Added ''Gamma'', Added ''Gamma'',
       [chanA, newChannel ''UC123'' ''Gamma'' (msgAdd ''https://www.youtube.com/channel/UC123'') 42,
        newChannel ''UC123'' ''Gamma'' (msgAdd ''https://www.youtube.com/channel/UC123'') 43])"
    by (simp add: addchannelOverlapped_def b f1 f2)
  with ids show ?thesis by (rule conjI [rotated])
qed

text \<open>
  C7, as the specification states it, fails: a removal by key can delete a record with
  another key. The query is the URL of the channel \<open>UCzzz\<close>, which is not in the
  registry; nothing is removed by key, so line 691 runs the URL text as a name query,
  and the channel \<open>UCddd\<close>, whose name quotes that URL, is deleted.
\<close>

theorem remove_by_absent_key_counterexample:
  "queryKey apiDown (join (args (msgRemove [''youtube.com/channel/UCzzz'']))) = Some ''UCzzz'' \<and>
   channelId chanD = ''UCddd'' \<and>
   removechannel asciiLowerCase apiDown (msgRemove [''youtube.com/channel/UCzzz''])
     [chanB, chanD] = (Removed, [chanB], [SaveChannels])"
  by (simp add: removechannel_def removeById_def queryKey_def msgRemove_def
      getYoutubeIdentifier_def idChar_def resolveToChannelId_def nameMatches_def
      asciiLowerCase_def lowerChar_def chanB_def chanD_def)

text \<open>
  C7, amended. For \<^verbatim>\<open>removechannel\<close> of an administrator with a nonempty query, and for
  every case folding \<open>lc\<close>: when the query resolves to a key that is in the registry,
  exactly the records with that key are deleted and the command reports a removal; in
  every other case (no URL in the query, no key resolved, or the key not in the
  registry) exactly the records whose folded name contains the folded query are
  deleted. A name matches when its folded text has the folded query as a contiguous
  part. The command reports a removal exactly when some record of the registry is no
  longer there, and it reports none on an empty registry.
\<close>

theorem remove_contract:
  "isAdministrator m \<and> args m \<noteq> [] \<longrightarrow>
   (queryKey a (join (args m)) = Some cid \<and> cid \<noteq> [] \<and> cid \<in> channelId ` set cs \<longrightarrow>
      fst (removechannel lc a m cs) = Removed \<and>
      fst (snd (removechannel lc a m cs)) = filter (\<lambda>c. channelId c \<noteq> cid) cs) \<and>
   (\<not> (\<exists>key. queryKey a (join (args m)) = Some key \<and> key \<noteq> [] \<and> key \<in> channelId ` set cs) \<longrightarrow>
      fst (snd (removechannel lc a m cs)) = filter (\<lambda>c. \<not> nameMatches lc (join (args m)) c) cs) \<and>
   nameMatches lc q c = (\<exists>u v. lc (channelName c) = u @ lc q @ v) \<and>
   (fst (removechannel lc a m cs) = Removed) = (\<exists>c\<in>set cs. c \<notin> set (fst (snd (removechannel lc a m cs)))) \<and>
   (fst (removechannel lc a m cs) = Removed \<or> fst (removechannel lc a m cs) = NotInList) \<and>
   (cs = [] \<longrightarrow> fst (removechannel lc a m cs) = NotInList \<and> fst (snd (removechannel lc a m cs)) = [])"
proof
  assume h: "isAdministrator m \<and> args m \<noteq> []"
  note E = removechannel_eq [of m lc a cs, OF conjunct1 [OF h] conjunct2 [OF h]]
  note e = E [THEN conjunct1]
  note r = E [THEN conjunct2, THEN conjunct1]
  note d = E [THEN conjunct2, THEN conjunct2]
  obtain P where P: "fst (snd (removechannel lc a m cs)) = filter P cs"
    using removechannel_filter [of lc a m cs] by blast
  have 1: "queryKey a (join (args m)) = Some cid \<and> cid \<noteq> [] \<and> cid \<in> channelId ` set cs \<longrightarrow>
      fst (removechannel lc a m cs) = Removed \<and>
      fst (snd (removechannel lc a m cs)) = filter (\<lambda>c. channelId c \<noteq> cid) cs"
  proof
    assume k: "queryKey a (join (args m)) = Some cid \<and> cid \<noteq> [] \<and> cid \<in> channelId ` set cs"
    then have "fst (snd (removeById a (join (args m)) cs))" by (auto simp add: removeById_removed)
    with e k have f: "fst (snd (removechannel lc a m cs)) = filter (\<lambda>c. channelId c \<noteq> cid) cs"
      by (simp add: removeById_filter)
    with k have "length (fst (snd (removechannel lc a m cs))) < length cs"
      by (auto simp add: filter_shrinks)
    with r f show "fst (removechannel lc a m cs) = Removed \<and>
      fst (snd (removechannel lc a m cs)) = filter (\<lambda>c. channelId c \<noteq> cid) cs" by simp
  qed
  have 2: "\<not> (\<exists>key. queryKey a (join (args m)) = Some key \<and> key \<noteq> [] \<and> key \<in> channelId ` set cs) \<longrightarrow>
      fst (snd (removechannel lc a m cs)) = filter (\<lambda>c. \<not> nameMatches lc (join (args m)) c) cs"
    using e by (auto simp add: removeById_removed)
  have 3: "nameMatches lc q c = (\<exists>u v. lc (channelName c) = u @ lc q @ v)"
    by (simp add: nameMatches_def includesStr_iff)
  have 4: "(fst (removechannel lc a m cs) = Removed) =
      (\<exists>c\<in>set cs. c \<notin> set (fst (snd (removechannel lc a m cs))))"
    using r by (auto simp add: P filter_shrinks)
  have 5: "cs = [] \<longrightarrow> fst (removechannel lc a m cs) = NotInList \<and> fst (snd (removechannel lc a m cs)) = []"
    using r d P by auto
  from 1 2 3 4 d 5
  show "(queryKey a (join (args m)) = Some cid \<and> cid \<noteq> [] \<and> cid \<in> channelId ` set cs \<longrightarrow>
      fst (removechannel lc a m cs) = Removed \<and>
      fst (snd (removechannel lc a m cs)) = filter (\<lambda>c. channelId c \<noteq> cid) cs) \<and>
   (\<not> (\<exists>key. queryKey a (join (args m)) = Some key \<and> key \<noteq> [] \<and> key \<in> channelId ` set cs) \<longrightarrow>
      fst (snd (removechannel lc a m cs)) = filter (\<lambda>c. \<not> nameMatches lc (join (args m)) c) cs) \<and>
   nameMatches lc q c = (\<exists>u v. lc (channelName c) = u @ lc q @ v) \<and>
   (fst (removechannel lc a m cs) = Removed) = (\<exists>c\<in>set cs. c \<notin> set (fst (snd (removechannel lc a m cs)))) \<and>
   (fst (removechannel lc a m cs) = Removed \<or> fst (removechannel lc a m cs) = NotInList) \<and>
   (cs = [] \<longrightarrow> fst (removechannel lc a m cs) = NotInList \<and> fst (snd (removechannel lc a m cs)) = [])"
    by (intro conjI)
qed


theorem remove_contract_witness:
  "isAdministrator (msgRemove [''youtube.com/channel/UCbbb'']) \<and>
   args (msgRemove [''youtube.com/channel/UCbbb'']) \<noteq> [] \<and>
   queryKey apiDown (join (args (msgRemove [''youtube.com/channel/UCbbb'']))) = Some ''UCbbb'' \<and>
   ''UCbbb'' \<in> channelId ` set [chanA, chanB, chanC] \<and>
   fst (removechannel asciiLowerCase apiDown (msgRemove [''youtube.com/channel/UCbbb'']) [chanA, chanB, chanC])
     = Removed \<and>
   fst (snd (removechannel asciiLowerCase apiDown (msgRemove [''youtube.com/channel/UCbbb''])
     [chanA, chanB, chanC])) = [chanA, chanC] \<and>
   isAdministrator (msgRemove [''ALPHA'']) \<and> args (msgRemove [''ALPHA'']) \<noteq> [] \<and>
   queryKey apiDown (join (args (msgRemove [''ALPHA'']))) = None \<and>
   nameMatches asciiLowerCase ''ALPHA'' chanA \<and> \<not> nameMatches asciiLowerCase ''ALPHA'' chanB \<and> nameMatches asciiLowerCase ''ALPHA'' chanC \<and>
   fst (snd (removechannel asciiLowerCase apiDown (msgRemove [''ALPHA'']) [chanA, chanB, chanC])) = [chanB] \<and>
   fst (removechannel asciiLowerCase apiDown (msgRemove [''ALPHA'']) [chanA, chanB, chanC]) = Removed \<and>
   fst (removechannel asciiLowerCase apiDown (msgRemove [''ALPHA'']) []) = NotInList \<and>
   fst (snd (removechannel asciiLowerCase apiDown (msgRemove [''ALPHA'']) [])) = []"
proof -
  let ?m1 = "msgRemove [''youtube.com/channel/UCbbb'']"
  let ?m2 = "msgRemove [''ALPHA'']"
  let ?cs = "[chanA, chanB, chanC]"
  have h1: "isAdministrator ?m1 \<and> args ?m1 \<noteq> []" and h2: "isAdministrator ?m2 \<and> args ?m2 \<noteq> []"
    by (simp_all add: msgRemove_def)
  have k1: "queryKey apiDown (join (args ?m1)) = Some ''UCbbb''"
    by (simp add: queryKey_def msgRemove_def getYoutubeIdentifier_def idChar_def
        resolveToChannelId_def)
  have k2: "queryKey apiDown (join (args ?m2)) = None"
    by (simp add: queryKey_def msgRemove_def getYoutubeIdentifier_def resolveToChannelId_def)
  have mem: "''UCbbb'' \<in> channelId ` set ?cs" by (simp add: chanB_def)
  have ids: "filter (\<lambda>c. channelId c \<noteq> ''UCbbb'') ?cs = [chanA, chanC]"
    by (simp add: chanA_def chanB_def chanC_def)
  have nm: "nameMatches asciiLowerCase ''ALPHA'' chanA" "\<not> nameMatches asciiLowerCase ''ALPHA'' chanB" "nameMatches asciiLowerCase ''ALPHA'' chanC"
    by (simp_all add: nameMatches_def asciiLowerCase_def lowerChar_def chanA_def chanB_def chanC_def)
  have j: "join (args ?m2) = ''ALPHA''" by (simp add: msgRemove_def)
  note R1 = remove_contract [of ?m1 apiDown "''UCbbb''" ?cs asciiLowerCase, THEN mp, OF h1]
  note R2 = remove_contract [of ?m2 apiDown _ ?cs asciiLowerCase, THEN mp, OF h2]
  note R3 = remove_contract [of ?m2 apiDown _ "[]" asciiLowerCase, THEN mp, OF h2]
  have c1: "queryKey apiDown (join (args ?m1)) = Some ''UCbbb'' \<and> ''UCbbb'' \<noteq> [] \<and>
      ''UCbbb'' \<in> channelId ` set ?cs"
    using k1 mem by (intro conjI) simp_all
  have "fst (removechannel asciiLowerCase apiDown ?m1 ?cs) = Removed \<and>
      fst (snd (removechannel asciiLowerCase apiDown ?m1 ?cs)) = filter (\<lambda>c. channelId c \<noteq> ''UCbbb'') ?cs"
    by (rule R1 [THEN conjunct1, THEN mp, OF c1])
  then have r1: "fst (removechannel asciiLowerCase apiDown ?m1 ?cs) = Removed"
      "fst (snd (removechannel asciiLowerCase apiDown ?m1 ?cs)) = [chanA, chanC]"
    by (simp_all only: ids)
  have c2: "\<not> (\<exists>key. queryKey apiDown (join (args ?m2)) = Some key \<and> key \<noteq> [] \<and>
      key \<in> channelId ` set ?cs)"
    by (simp only: k2) simp
  have "fst (snd (removechannel asciiLowerCase apiDown ?m2 ?cs)) =
      filter (\<lambda>c. \<not> nameMatches asciiLowerCase (join (args ?m2)) c) ?cs"
    by (rule R2 [THEN conjunct2, THEN conjunct1, THEN mp, OF c2])
  with nm j have r2: "fst (snd (removechannel asciiLowerCase apiDown ?m2 ?cs)) = [chanB]" by simp
  have "(fst (removechannel asciiLowerCase apiDown ?m2 ?cs) = Removed) =
      (\<exists>c\<in>set ?cs. c \<notin> set (fst (snd (removechannel asciiLowerCase apiDown ?m2 ?cs))))"
    by (rule R2 [THEN conjunct2, THEN conjunct2, THEN conjunct2, THEN conjunct1])
  moreover have "\<exists>c\<in>set ?cs. c \<notin> set [chanB]" by (simp add: chanA_def chanB_def)
  ultimately have r3: "fst (removechannel asciiLowerCase apiDown ?m2 ?cs) = Removed"
    unfolding r2 by blast
  have "fst (removechannel asciiLowerCase apiDown ?m2 []) = NotInList \<and>
      fst (snd (removechannel asciiLowerCase apiDown ?m2 [])) = []"
    by (rule R3 [THEN conjunct2, THEN conjunct2, THEN conjunct2, THEN conjunct2, THEN conjunct2,
          THEN mp, OF refl])
  then have r4: "fst (removechannel asciiLowerCase apiDown ?m2 []) = NotInList"
      "fst (snd (removechannel asciiLowerCase apiDown ?m2 [])) = []"
    by simp_all
  from h1 h2 k1 k2 mem nm r1 r2 r3 r4 show ?thesis by (intro conjI) simp_all
qed

end
